theory Spec2Isabelle
  imports Complex_Main "HOL-Library.AList" "HOL-Library.Char_ord" "HOL-Library.List_Lexorder"
    "HOL-Library.Sublist"
begin

section \<open>Values exchanged with the two providers\<close>

text \<open>
  \<^verbatim>\<open>response.json()\<close> yields Python values built from JSON. Integers are unbounded,
  a float is represented by the exact rational value of the binary double (JSON has no
  NaN and no infinity), a string is its UTF-8 byte sequence (bytewise lexicographic order
  coincides with Python's code-point order), and an object is an association list read
  with \<open>map_of\<close>.
\<close>

datatype json =
    JNull
  | JBool bool
  | JInt int
  | JFloat rat
  | JStr string
  | JArr "json list"
  | JObj "(string \<times> json) list"

text \<open>The exceptions the module can meet; every handler in it is \<^verbatim>\<open>except Exception\<close>.\<close>

datatype exn = KeyError | TypeError | AttributeError | ValueError | IndexError
  | NameError | ValidationError

fun then_do :: "exn + 'a \<Rightarrow> ('a \<Rightarrow> exn + 'b) \<Rightarrow> exn + 'b" where
  "then_do (Inl e) f = Inl e"
| "then_do (Inr v) f = f v"

text \<open>Truth value of a Python object, as tested by \<^verbatim>\<open>if x\<close>, \<^verbatim>\<open>not x\<close> and \<^verbatim>\<open>and\<close>.\<close>

fun truthy :: "json \<Rightarrow> bool" where
  "truthy JNull = False"
| "truthy (JBool b) = b"
| "truthy (JInt i) = (i \<noteq> 0)"
| "truthy (JFloat r) = (r \<noteq> 0)"
| "truthy (JStr s) = (s \<noteq> [])"
| "truthy (JArr xs) = (xs \<noteq> [])"
| "truthy (JObj kvs) = (kvs \<noteq> [])"

text \<open>\<^verbatim>\<open>x[key]\<close> with a string key: only a dict accepts it.\<close>

fun subscript :: "json \<Rightarrow> string \<Rightarrow> exn + json" where
  "subscript (JObj kvs) k = (case map_of kvs k of None \<Rightarrow> Inl KeyError | Some v \<Rightarrow> Inr v)"
| "subscript _ k = Inl TypeError"

text \<open>\<^verbatim>\<open>x.get(key, default)\<close>: only a dict has the method.\<close>

fun get_default :: "json \<Rightarrow> string \<Rightarrow> json \<Rightarrow> exn + json" where
  "get_default (JObj kvs) k d = (case map_of kvs k of None \<Rightarrow> Inr d | Some v \<Rightarrow> Inr v)"
| "get_default _ k d = Inl AttributeError"

text \<open>\<^verbatim>\<open>key in x\<close> for a string key: key test on a dict, element test on a list,
  substring test on a string, \<^verbatim>\<open>TypeError\<close> on anything else.\<close>

fun contains :: "json \<Rightarrow> string \<Rightarrow> exn + bool" where
  "contains (JObj kvs) k = Inr (k \<in> fst ` set kvs)"
| "contains (JArr xs) k = Inr (JStr k \<in> set xs)"
| "contains (JStr s) k = Inr (sublist k s)"
| "contains _ k = Inl TypeError"


text \<open>\<^verbatim>\<open>v[:10]\<close>: lists and strings can be sliced.\<close>

fun slice10 :: "json \<Rightarrow> exn + json list" where
  "slice10 (JArr xs) = Inr (take 10 xs)"
| "slice10 (JStr s) = Inr (map (\<lambda>c. JStr [c]) (take 10 s))"
| "slice10 _ = Inl TypeError"

text \<open>Numeric value of the objects Python treats as numbers (\<^verbatim>\<open>bool\<close> is a subclass
  of \<^verbatim>\<open>int\<close>); comparisons between them are exact.\<close>

fun num_of :: "json \<Rightarrow> rat option" where
  "num_of (JBool b) = Some (if b then 1 else 0)"
| "num_of (JInt i) = Some (of_int i)"
| "num_of (JFloat r) = Some r"
| "num_of _ = None"

text \<open>\<^verbatim>\<open>a > b\<close>: numbers compare by value, strings lexicographically; \<^verbatim>\<open>None\<close>, dicts and
  mixed operands raise \<^verbatim>\<open>TypeError\<close>. The ordering of two arrays is not modelled (it is
  treated like the other unordered pairs).\<close>

fun py_gt :: "json \<Rightarrow> json \<Rightarrow> exn + bool" where
  "py_gt (JStr s) (JStr t) = Inr (t < s)"
| "py_gt a b = (case (num_of a, num_of b) of
                 (Some x, Some y) \<Rightarrow> Inr (y < x)
               | _ \<Rightarrow> Inl TypeError)"

subsection \<open>Hashable values as dictionary keys\<close>

text \<open>
  A key keeps the object first stored (\<open>hkey\<close>); two keys are the same key when they are
  equal in Python, where \<^verbatim>\<open>1 == 1.0 == True\<close> (\<open>norm\<close>). Lists and dicts are unhashable.
\<close>

datatype hkey = HNone | HBool bool | HInt int | HFloat rat | HStr string

datatype pykey = KNone | KNum rat | KStr string

fun hashable :: "json \<Rightarrow> exn + hkey" where
  "hashable JNull = Inr HNone"
| "hashable (JBool b) = Inr (HBool b)"
| "hashable (JInt i) = Inr (HInt i)"
| "hashable (JFloat r) = Inr (HFloat r)"
| "hashable (JStr s) = Inr (HStr s)"
| "hashable _ = Inl TypeError"

fun norm :: "hkey \<Rightarrow> pykey" where
  "norm HNone = KNone"
| "norm (HBool b) = KNum (if b then 1 else 0)"
| "norm (HInt i) = KNum (of_int i)"
| "norm (HFloat r) = KNum r"
| "norm (HStr s) = KStr s"

subsection \<open>Library behaviour taken as a parameter\<close>

text \<open>
  A \<^verbatim>\<open>datetime\<close> is either naive (its wall-clock reading in microseconds) or aware (the
  UTC instant in microseconds since the epoch, and its UTC offset).
\<close>

datatype pydt = Naive int | Aware int int

text \<open>
  The library routines whose results are not computed here: every theorem holds for
  whatever they return.
  \<^item> \<open>fromisoformat\<close>: \<^verbatim>\<open>datetime.fromisoformat\<close>, \<open>None\<close> for \<^verbatim>\<open>ValueError\<close>;
  \<^item> \<open>isoformat\<close>: \<^verbatim>\<open>dt.isoformat()\<close>;
  \<^item> \<open>strftime\<close>: \<^verbatim>\<open>dt.strftime('%Y-%m-%d %H:%M UTC')\<close>;
  \<^item> \<open>repr_float\<close>: \<^verbatim>\<open>str\<close> of a float;
  \<^item> \<open>float_of_str\<close>: \<^verbatim>\<open>float\<close> of a string, \<open>None\<close> for \<^verbatim>\<open>ValueError\<close>;
  \<^item> \<open>coerce_str\<close>: what a pydantic \<^verbatim>\<open>str\<close> field does with a value that is neither a
    string nor \<^verbatim>\<open>None\<close> (\<open>None\<close> for \<^verbatim>\<open>ValidationError\<close>).
\<close>

record pylib =
  fromisoformat :: "string \<Rightarrow> pydt option"
  isoformat :: "pydt \<Rightarrow> string"
  strftime :: "pydt \<Rightarrow> string"
  repr_float :: "rat \<Rightarrow> string"
  float_of_str :: "string \<Rightarrow> rat option"
  coerce_str :: "json \<Rightarrow> string option"

subsection \<open>Text of numbers\<close>

definition digit_char :: "nat \<Rightarrow> char" where
  "digit_char n = ''0123456789'' ! n"

fun str_nat :: "nat \<Rightarrow> string" where
  "str_nat n = (if n < 10 then [digit_char n] else str_nat (n div 10) @ [digit_char (n mod 10)])"

declare str_nat.simps [simp del]

definition str_int :: "int \<Rightarrow> string" where
  "str_int i = (if i < 0 then CHR ''-'' # str_nat (nat (- i)) else str_nat (nat i))"

text \<open>\<^verbatim>\<open>str(x)\<close> of a hashable value, as an f-string inserts it.\<close>

fun py_str :: "pylib \<Rightarrow> hkey \<Rightarrow> string" where
  "py_str L HNone = ''None''"
| "py_str L (HBool b) = (if b then ''True'' else ''False'')"
| "py_str L (HInt i) = str_int i"
| "py_str L (HFloat r) = repr_float L r"
| "py_str L (HStr s) = s"

text \<open>\<^verbatim>\<open>s.replace('Z', '+00:00')\<close>.\<close>

definition replace_Z :: "string \<Rightarrow> string" where
  "replace_Z s = concat (map (\<lambda>c. if c = CHR ''Z'' then ''+00:00'' else [c]) s)"


section \<open>Countdown to the race: \<^verbatim>\<open>calculate_time_left\<close>\<close>





text \<open>\<^verbatim>\<open>if race_dt.tzinfo is None: race_dt = race_dt.replace(tzinfo=timezone.utc)\<close>, then the
  UTC instant of the result.\<close>

fun utc_instant :: "pydt \<Rightarrow> int" where
  "utc_instant (Naive w) = w"
| "utc_instant (Aware t off) = t"


section \<open>Lap-time text\<close>

text \<open>Rounding of the exact value to the nearest integer, ties to even, as the
  correctly rounded \<^verbatim>\<open>%f\<close> conversion does.\<close>

definition round_half_even :: "rat \<Rightarrow> int" where
  "round_half_even y =
     (let f = \<lfloor>y\<rfloor>; d = y - of_int f
      in if d < 1 / 2 then f else if 1 / 2 < d then f + 1
         else if even f then f else f + 1)"

text \<open>\<^verbatim>\<open>f"{x:06.3f}"\<close>: three decimals, then zeros between the sign and the digits up to a
  total width of six.\<close>

definition format_06_3f :: "rat \<Rightarrow> string" where
  "format_06_3f x =
     (let q = nat (round_half_even (1000 * \<bar>x\<bar>));
          frac = str_nat (q mod 1000);
          body = str_nat (q div 1000) @ ''.'' @ replicate (3 - length frac) CHR ''0'' @ frac;
          sign = (if x < 0 then ''-'' else '''')
      in sign @ replicate (6 - length sign - length body) CHR ''0'' @ body)"

text \<open>Lines 483 to 486 (and 555 to 558): \<^verbatim>\<open>minutes = int(duration // 60)\<close>,
  \<^verbatim>\<open>seconds = duration % 60\<close>, \<^verbatim>\<open>f"{minutes}:{seconds:06.3f}"\<close>.\<close>

definition format_lap_time :: "rat \<Rightarrow> string" where
  "format_lap_time duration =
     (let minutes = \<lfloor>duration / 60\<rfloor>;
          seconds = duration - 60 * of_int minutes
      in str_int minutes @ '':'' @ format_06_3f seconds)"

section \<open>The source gateway\<close>

text \<open>
  An endpoint is the formatted path with its parameters kept apart: \<^verbatim>\<open>f"{year}/standings/drivers"\<close>,
  \<^verbatim>\<open>f"{year}/standings/teams"\<close> and \<^verbatim>\<open>f"{year}"\<close> on f1api.dev;
  \<^verbatim>\<open>sessions?session_type=Race&year=\<close>, \<^verbatim>\<open>position?session_key=\<close>,
  \<^verbatim>\<open>laps?session_key=\<close> and \<^verbatim>\<open>meetings?year=\<close> on OpenF1.
\<close>

datatype f1api_endpoint = DriverStandings int | TeamStandings int | Season int

datatype openf1_endpoint = Sessions int | Positions json | Laps json | Meetings int

datatype call = F1api f1api_endpoint | OpenF1 openf1_endpoint

text \<open>
  A gateway answers a request from the requests made before it, so that a provider may
  answer the same request differently over time. \<open>None\<close> is the absent value that
  \<^verbatim>\<open>fetch_from_f1api_dev\<close> and \<^verbatim>\<open>fetch_from_openf1\<close> return on a timeout, a transport error or
  a status other than 200. The first returns a dict, the second a list, as annotated.
\<close>

record gateway =
  f1api :: "call list \<Rightarrow> f1api_endpoint \<Rightarrow> (string \<times> json) list option"
  openf1 :: "call list \<Rightarrow> openf1_endpoint \<Rightarrow> json list option"

definition fetch_from_f1api_dev ::
  "gateway \<Rightarrow> f1api_endpoint \<Rightarrow> call list \<Rightarrow> (string \<times> json) list option \<times> call list" where
  "fetch_from_f1api_dev G endpoint calls = (f1api G calls endpoint, calls @ [F1api endpoint])"

definition fetch_from_openf1 ::
  "gateway \<Rightarrow> openf1_endpoint \<Rightarrow> call list \<Rightarrow> json list option \<times> call list" where
  "fetch_from_openf1 G endpoint calls = (openf1 G calls endpoint, calls @ [OpenF1 endpoint])"

text \<open>\<^verbatim>\<open>if not sessions\<close>: absent or empty.\<close>

fun nonempty :: "'a list option \<Rightarrow> bool" where
  "nonempty None = False"
| "nonempty (Some xs) = (xs \<noteq> [])"

section \<open>Response models\<close>

record Driver =
  position :: int
  driver_name :: string
  abbrev :: string
  team :: string
  points :: rat

record Team =
  team_position :: int
  team_name :: string
  team_points :: rat


record FastestLap =
  lap_driver_name :: string
  lap_abbreviation :: string
  lap_team :: string
  lap_time :: string
  lap_race_name :: string
  lap_date :: string
  sector_times :: "rat list"

text \<open>Validation of a \<^verbatim>\<open>str\<close> field: a string is kept, \<^verbatim>\<open>None\<close> is refused.\<close>

definition validate_str :: "pylib \<Rightarrow> json \<Rightarrow> exn + string" where
  "validate_str L v =
     (case v of
        JStr s \<Rightarrow> Inr s
      | JNull \<Rightarrow> Inl ValidationError
      | _ \<Rightarrow> (case coerce_str L v of None \<Rightarrow> Inl ValidationError | Some s \<Rightarrow> Inr s))"

text \<open>\<^verbatim>\<open>float(v)\<close>.\<close>

definition py_float :: "pylib \<Rightarrow> json \<Rightarrow> exn + rat" where
  "py_float L v =
     (case v of
        JStr s \<Rightarrow> (case float_of_str L s of None \<Rightarrow> Inl ValueError | Some r \<Rightarrow> Inr r)
      | _ \<Rightarrow> (case num_of v of None \<Rightarrow> Inl TypeError | Some r \<Rightarrow> Inr r))"

section \<open>Static tables\<close>

definition POINTS_SYSTEM :: "(int \<times> int) list" where
  "POINTS_SYSTEM =
     [(1, 25), (2, 18), (3, 15), (4, 12), (5, 10), (6, 8), (7, 6), (8, 4), (9, 2), (10, 1)]"

record driver_info =
  info_name :: string
  info_abbr :: string
  info_team :: string

definition DRIVER_INFO :: "(int \<times> driver_info) list" where
  "DRIVER_INFO =
     [(1, \<lparr>info_name = ''Max Verstappen'', info_abbr = ''VER'', info_team = ''Red Bull Racing''\<rparr>),
      (22, \<lparr>info_name = ''Yuki Tsunoda'', info_abbr = ''TSU'', info_team = ''Red Bull Racing''\<rparr>),
      (16, \<lparr>info_name = ''Charles Leclerc'', info_abbr = ''LEC'', info_team = ''Ferrari''\<rparr>),
      (44, \<lparr>info_name = ''Lewis Hamilton'', info_abbr = ''HAM'', info_team = ''Ferrari''\<rparr>),
      (63, \<lparr>info_name = ''George Russell'', info_abbr = ''RUS'', info_team = ''Mercedes''\<rparr>),
      (12, \<lparr>info_name = ''Kimi Antonelli'', info_abbr = ''ANT'', info_team = ''Mercedes''\<rparr>),
      (4, \<lparr>info_name = ''Lando Norris'', info_abbr = ''NOR'', info_team = ''McLaren''\<rparr>),
      (81, \<lparr>info_name = ''Oscar Piastri'', info_abbr = ''PIA'', info_team = ''McLaren''\<rparr>),
      (14, \<lparr>info_name = ''Fernando Alonso'', info_abbr = ''ALO'', info_team = ''Aston Martin''\<rparr>),
      (18, \<lparr>info_name = ''Lance Stroll'', info_abbr = ''STR'', info_team = ''Aston Martin''\<rparr>),
      (10, \<lparr>info_name = ''Pierre Gasly'', info_abbr = ''GAS'', info_team = ''Alpine''\<rparr>),
      (43, \<lparr>info_name = ''Franco Colapinto'', info_abbr = ''COL'', info_team = ''Alpine''\<rparr>),
      (31, \<lparr>info_name = ''Esteban Ocon'', info_abbr = ''OCO'', info_team = ''Haas''\<rparr>),
      (87, \<lparr>info_name = ''Oliver Bearman'', info_abbr = ''BEA'', info_team = ''Haas''\<rparr>),
      (27, \<lparr>info_name = ''Niko Hulkenberg'', info_abbr = ''HUL'', info_team = ''Kick Sauber''\<rparr>),
      (5, \<lparr>info_name = ''Gabriel Bortoleto'', info_abbr = ''BOR'', info_team = ''Kick Sauber''\<rparr>),
      (23, \<lparr>info_name = ''Alexander Albon'', info_abbr = ''ALB'', info_team = ''Williams''\<rparr>),
      (2, \<lparr>info_name = ''Logan Sargeant'', info_abbr = ''SAR'', info_team = ''Williams''\<rparr>),
      (55, \<lparr>info_name = ''Carlos Sainz'', info_abbr = ''SAI'', info_team = ''Williams''\<rparr>),
      (30, \<lparr>info_name = ''Liam Lawson'', info_abbr = ''LAW'', info_team = ''Racing Bulls''\<rparr>),
      (6, \<lparr>info_name = ''Isack Hadjar'', info_abbr = ''HAD'', info_team = ''Racing Bulls''\<rparr>)]"

text \<open>\<^verbatim>\<open>table.get(key)\<close> on a dict whose keys are the integers of \<open>table\<close>.\<close>

definition int_dict_get :: "(int \<times> 'v) list \<Rightarrow> hkey \<Rightarrow> 'v option" where
  "int_dict_get table key = map_of (map (\<lambda>(n, v). (KNum (of_int n), v)) table) (norm key)"

text \<open>\<^verbatim>\<open>DRIVER_INFO.get(driver_number, {"name": f"Driver {driver_number}", ...})\<close>.\<close>

definition lookup_driver_info :: "pylib \<Rightarrow> hkey \<Rightarrow> driver_info" where
  "lookup_driver_info L driver_number =
     (case int_dict_get DRIVER_INFO driver_number of
        Some info \<Rightarrow> info
      | None \<Rightarrow> \<lparr> info_name = ''Driver '' @ py_str L driver_number,
                  info_abbr = ''D'' @ py_str L driver_number,
                  info_team = ''Unknown'' \<rparr>)"

text \<open>\<^verbatim>\<open>POINTS_SYSTEM.get(position, 0)\<close>; an unhashable position raises.\<close>

definition points_for :: "json \<Rightarrow> exn + int" where
  "points_for position_value =
     then_do (hashable position_value) (\<lambda>key.
       Inr (case int_dict_get POINTS_SYSTEM key of None \<Rightarrow> 0 | Some p \<Rightarrow> p))"

section \<open>Standings derived from race results: \<^verbatim>\<open>calculate_standings_from_results\<close>\<close>

text \<open>
  A Python dict keeps its keys in order of first insertion and keeps the key object first
  stored; \<open>AList.update\<close> replaces the value in place or appends a new entry.
  \<open>final_positions\<close> maps a car number to the key object and the retained record.
\<close>

type_synonym fpdict = "(pykey \<times> hkey \<times> json) list"

text \<open>The body of the loop of lines 197 to 200.\<close>

definition record_position :: "fpdict \<Rightarrow> json \<Rightarrow> exn + fpdict" where
  "record_position final_positions pos =
     then_do (subscript pos ''driver_number'') (\<lambda>driver_number.
     then_do (hashable driver_number) (\<lambda>key.
       (case map_of final_positions (norm key) of
          None \<Rightarrow> Inr (AList.update (norm key) (key, pos) final_positions)
        | Some (key0, current) \<Rightarrow>
            then_do (subscript pos ''date'') (\<lambda>d.
            then_do (subscript current ''date'') (\<lambda>d0.
            then_do (py_gt d d0) (\<lambda>later.
              Inr (if later then AList.update (norm key) (key0, pos) final_positions
                   else final_positions)))))))"

fun final_positions_from :: "fpdict \<Rightarrow> json list \<Rightarrow> exn + fpdict" where
  "final_positions_from fp [] = Inr fp"
| "final_positions_from fp (pos # rest) =
     then_do (record_position fp pos) (\<lambda>fp'. final_positions_from fp' rest)"

definition final_positions_of :: "json list \<Rightarrow> exn + fpdict" where
  "final_positions_of positions = final_positions_from [] positions"

type_synonym driver_points = "((pykey \<times> string) \<times> int \<times> driver_info) list"

type_synonym team_points_dict = "(string \<times> int) list"

text \<open>The body of the loop of lines 203 to 226, for one entry of \<^verbatim>\<open>final_positions.items()\<close>.\<close>

definition award ::
  "pylib \<Rightarrow> hkey \<times> json \<Rightarrow> driver_points \<times> team_points_dict
     \<Rightarrow> exn + driver_points \<times> team_points_dict" where
  "award L entry acc =
     (case entry of (driver_number, pos_data) \<Rightarrow>
      case acc of (dpoints, tpoints) \<Rightarrow>
        then_do (subscript pos_data ''position'') (\<lambda>position.
        let info = lookup_driver_info L driver_number in
        then_do (points_for position) (\<lambda>pts.
        let driver_key = (norm driver_number, info_name info);
            dpoints' = (case map_of dpoints driver_key of
                          None \<Rightarrow> AList.update driver_key (0 + pts, info) dpoints
                        | Some (p, i) \<Rightarrow> AList.update driver_key (p + pts, i) dpoints);
            team_name = info_team info;
            tpoints' = (case map_of tpoints team_name of
                          None \<Rightarrow> AList.update team_name (0 + pts) tpoints
                        | Some p \<Rightarrow> AList.update team_name (p + pts) tpoints)
        in Inr (dpoints', tpoints'))))"

fun award_all ::
  "pylib \<Rightarrow> (hkey \<times> json) list \<Rightarrow> driver_points \<times> team_points_dict
     \<Rightarrow> exn + driver_points \<times> team_points_dict" where
  "award_all L [] acc = Inr acc"
| "award_all L (entry # rest) acc = then_do (award L entry acc) (award_all L rest)"

text \<open>The loop over the sessions, lines 186 to 226.\<close>

fun sessions_loop ::
  "pylib \<Rightarrow> gateway \<Rightarrow> json list \<Rightarrow> driver_points \<times> team_points_dict \<Rightarrow> call list
     \<Rightarrow> (exn + driver_points \<times> team_points_dict) \<times> call list" where
  "sessions_loop L G [] acc calls = (Inr acc, calls)"
| "sessions_loop L G (session # rest) acc calls =
     (case subscript session ''session_key'' of
        Inl e \<Rightarrow> (Inl e, calls)
      | Inr session_key \<Rightarrow>
          (case fetch_from_openf1 G (Positions session_key) calls of
             (positions, calls') \<Rightarrow>
               if \<not> nonempty positions then sessions_loop L G rest acc calls'
               else
                 (case then_do (final_positions_of (the positions))
                         (\<lambda>fp. award_all L (map snd fp) acc) of
                    Inl e \<Rightarrow> (Inl e, calls')
                  | Inr acc' \<Rightarrow> sessions_loop L G rest acc' calls')))"

text \<open>Lines 228 to 250: \<^verbatim>\<open>sorted(..., reverse=True)\<close> is stable, as \<open>sort_key\<close> is.\<close>

definition rank_drivers :: "driver_points \<Rightarrow> Driver list" where
  "rank_drivers dpoints =
     map (\<lambda>(i, (key, (pts, info))).
            \<lparr> position = int i + 1, driver_name = info_name info,
              abbrev = info_abbr info, team = info_team info, points = of_int pts \<rparr>)
         (enumerate 0 (take 10 (sort_key (\<lambda>(key, (pts, info)). - pts) dpoints)))"

definition rank_teams :: "team_points_dict \<Rightarrow> Team list" where
  "rank_teams tpoints =
     map (\<lambda>(i, (name, pts)).
            \<lparr> team_position = int i + 1, team_name = name, team_points = of_int pts \<rparr>)
         (enumerate 0 (take 10 (sort_key (\<lambda>(name, pts). - pts) tpoints)))"

definition get_fallback_standings :: "Driver list \<times> Team list" where
  "get_fallback_standings =
     ([\<lparr> position = 1, driver_name = ''Max Verstappen'', abbrev = ''VER'',
          team = ''Red Bull Racing'', points = 393 \<rparr>,
       \<lparr> position = 2, driver_name = ''Lando Norris'', abbrev = ''NOR'',
          team = ''McLaren'', points = 331 \<rparr>,
       \<lparr> position = 3, driver_name = ''Charles Leclerc'', abbrev = ''LEC'',
          team = ''Ferrari'', points = 307 \<rparr>],
      [\<lparr> team_position = 1, team_name = ''Red Bull Racing'', team_points = 860 \<rparr>,
       \<lparr> team_position = 2, team_name = ''McLaren'', team_points = 608 \<rparr>,
       \<lparr> team_position = 3, team_name = ''Ferrari'', team_points = 584 \<rparr>])"

text \<open>The body of the \<^verbatim>\<open>try\<close> block, lines 170 to 252; \<open>year\<close> is \<^verbatim>\<open>datetime.now().year\<close>.\<close>

definition standings_attempt ::
  "pylib \<Rightarrow> gateway \<Rightarrow> int \<Rightarrow> call list \<Rightarrow> (exn + Driver list \<times> Team list) \<times> call list" where
  "standings_attempt L G year calls =
     (case fetch_from_openf1 G (Sessions year) calls of
        (sessions0, calls0) \<Rightarrow>
          (case (if \<not> nonempty sessions0 then fetch_from_openf1 G (Sessions (year - 1)) calls0
                 else (sessions0, calls0)) of
             (sessions, calls1) \<Rightarrow>
               if \<not> nonempty sessions then (Inr get_fallback_standings, calls1)
               else
                 (case sessions_loop L G (the sessions) ([], []) calls1 of
                    (Inl e, calls2) \<Rightarrow> (Inl e, calls2)
                  | (Inr (dpoints, tpoints), calls2) \<Rightarrow>
                      (Inr (rank_drivers dpoints, rank_teams tpoints), calls2))))"

text \<open>The whole function: \<^verbatim>\<open>except Exception\<close> returns the fallback standings.\<close>

definition calculate_standings_from_results ::
  "pylib \<Rightarrow> gateway \<Rightarrow> int \<Rightarrow> call list \<Rightarrow> (exn + Driver list \<times> Team list) \<times> call list" where
  "calculate_standings_from_results L G year calls =
     (case standings_attempt L G year calls of
        (Inl e, calls') \<Rightarrow> (Inr get_fallback_standings, calls')
      | (Inr result, calls') \<Rightarrow> (Inr result, calls'))"

section \<open>Standings from the primary provider\<close>

text \<open>One \<^verbatim>\<open>Driver(...)\<close> of the loop of lines 285 to 292; the inner \<^verbatim>\<open>get\<close> is an argument
  of the outer one and is evaluated first.\<close>

definition driver_entry :: "pylib \<Rightarrow> nat \<Rightarrow> json \<Rightarrow> exn + Driver" where
  "driver_entry L i driver =
     then_do (get_default driver ''name'' (JStr ''Unknown'')) (\<lambda>n0.
     then_do (get_default driver ''driver_name'' n0) (\<lambda>n.
     then_do (get_default driver ''code'' (JStr ''UNK'')) (\<lambda>a0.
     then_do (get_default driver ''abbreviation'' a0) (\<lambda>a.
     then_do (get_default driver ''constructor'' (JStr ''Unknown'')) (\<lambda>t0.
     then_do (get_default driver ''team'' t0) (\<lambda>t.
     then_do (get_default driver ''points'' (JInt 0)) (\<lambda>p0.
     then_do (py_float L p0) (\<lambda>p.
     then_do (validate_str L n) (\<lambda>n'.
     then_do (validate_str L a) (\<lambda>a'.
     then_do (validate_str L t) (\<lambda>t'.
       Inr \<lparr> position = int i + 1, driver_name = n', abbrev = a', team = t',
             points = p \<rparr>)))))))))))"

fun driver_entries :: "pylib \<Rightarrow> nat \<Rightarrow> json list \<Rightarrow> exn + Driver list" where
  "driver_entries L i [] = Inr []"
| "driver_entries L i (driver # rest) =
     then_do (driver_entry L i driver) (\<lambda>d.
     then_do (driver_entries L (Suc i) rest) (\<lambda>ds. Inr (d # ds)))"

text \<open>The \<^verbatim>\<open>try\<close> block of lines 281 to 294.\<close>

definition drivers_from_api :: "pylib \<Rightarrow> (string \<times> json) list \<Rightarrow> exn + Driver list" where
  "drivers_from_api L data =
     then_do (subscript (JObj data) ''standings'') (\<lambda>standings.
     then_do (slice10 standings) (\<lambda>top. driver_entries L 0 top))"

text \<open>\<^verbatim>\<open>if data and 'standings' in data\<close>, on the dict or absent value of the gateway.\<close>

definition has_key :: "(string \<times> json) list option \<Rightarrow> string \<Rightarrow> bool" where
  "has_key data k = (case data of None \<Rightarrow> False | Some kvs \<Rightarrow> kvs \<noteq> [] \<and> k \<in> fst ` set kvs)"

definition fetch_driver_standings ::
  "pylib \<Rightarrow> gateway \<Rightarrow> int \<Rightarrow> call list \<Rightarrow> (exn + Driver list) \<times> call list" where
  "fetch_driver_standings L G year calls =
     (case fetch_from_f1api_dev G (DriverStandings year) calls of
        (data, calls') \<Rightarrow>
          (case (if has_key data ''standings'' then drivers_from_api L (the data)
                 else Inl KeyError) of
             Inr top_drivers \<Rightarrow> (Inr top_drivers, calls')
           | Inl e \<Rightarrow>
               (case calculate_standings_from_results L G year calls' of
                  (Inl e', calls'') \<Rightarrow> (Inl e', calls'')
                | (Inr (drivers, teams), calls'') \<Rightarrow> (Inr drivers, calls''))))"

definition team_entry :: "pylib \<Rightarrow> nat \<Rightarrow> json \<Rightarrow> exn + Team" where
  "team_entry L i t =
     then_do (get_default t ''name'' (JStr ''Unknown'')) (\<lambda>n0.
     then_do (get_default t ''team_name'' n0) (\<lambda>n.
     then_do (get_default t ''points'' (JInt 0)) (\<lambda>p0.
     then_do (py_float L p0) (\<lambda>p.
     then_do (validate_str L n) (\<lambda>n'.
       Inr \<lparr> team_position = int i + 1, team_name = n', team_points = p \<rparr>)))))"

fun team_entries :: "pylib \<Rightarrow> nat \<Rightarrow> json list \<Rightarrow> exn + Team list" where
  "team_entries L i [] = Inr []"
| "team_entries L i (t # rest) =
     then_do (team_entry L i t) (\<lambda>d.
     then_do (team_entries L (Suc i) rest) (\<lambda>ds. Inr (d # ds)))"

definition teams_from_api :: "pylib \<Rightarrow> (string \<times> json) list \<Rightarrow> exn + Team list" where
  "teams_from_api L data =
     then_do (subscript (JObj data) ''standings'') (\<lambda>standings.
     then_do (slice10 standings) (\<lambda>top. team_entries L 0 top))"

definition fetch_constructor_standings ::
  "pylib \<Rightarrow> gateway \<Rightarrow> int \<Rightarrow> call list \<Rightarrow> (exn + Team list) \<times> call list" where
  "fetch_constructor_standings L G year calls =
     (case fetch_from_f1api_dev G (TeamStandings year) calls of
        (data, calls') \<Rightarrow>
          (case (if has_key data ''standings'' then teams_from_api L (the data)
                 else Inl KeyError) of
             Inr top_teams \<Rightarrow> (Inr top_teams, calls')
           | Inl e \<Rightarrow>
               (case calculate_standings_from_results L G year calls' of
                  (Inl e', calls'') \<Rightarrow> (Inl e', calls'')
                | (Inr (drivers, teams), calls'') \<Rightarrow> (Inr teams, calls''))))"

section \<open>Next race: \<^verbatim>\<open>fetch_next_race\<close>\<close>


fun before_now :: "pydt \<Rightarrow> int \<Rightarrow> exn + bool" where
  "before_now (Naive w) now = Inl TypeError"
| "before_now (Aware t off) now = Inr (t < now)"

definition parse_iso :: "pylib \<Rightarrow> string \<Rightarrow> exn + pydt" where
  "parse_iso L s = (case fromisoformat L s of None \<Rightarrow> Inl ValueError | Some dt \<Rightarrow> Inr dt)"




text \<open>\<^verbatim>\<open>upcoming.sort(key=lambda x: x[1])\<close> and \<^verbatim>\<open>upcoming[0]\<close>: the sort is stable.\<close>

definition earliest :: "(json \<times> pydt) list \<Rightarrow> json \<times> pydt" where
  "earliest upcoming = hd (sort_key (\<lambda>x. utc_instant (snd x)) upcoming)"












section \<open>Fastest lap: \<^verbatim>\<open>fetch_fastest_lap\<close> and \<^verbatim>\<open>fetch_fastest_laps\<close>\<close>

definition get_fallback_fastest_lap :: FastestLap where
  "get_fallback_fastest_lap =
     \<lparr> lap_driver_name = ''Max Verstappen'', lap_abbreviation = ''VER'',
       lap_team = ''Red Bull Racing'', lap_time = ''1:20.554'',
       lap_race_name = ''Abu Dhabi Grand Prix'', lap_date = ''2024-12-08'',
       sector_times = [51 / 2, 176 / 5, 19854 / 1000] \<rparr>"

text \<open>
  The module calls \<^verbatim>\<open>get_sector_times\<close> on lines 489 and 560 and neither defines nor imports
  that name: evaluating it raises \<^verbatim>\<open>NameError\<close> before any argument is evaluated.
\<close>

definition get_sector_times :: "json \<Rightarrow> json \<Rightarrow> json \<Rightarrow> exn + rat list" where
  "get_sector_times session_key driver_number lap_number = Inl NameError"

text \<open>The condition of the comprehension of lines 450 to 453.\<close>

definition past_race :: "pylib \<Rightarrow> int \<Rightarrow> json \<Rightarrow> exn + bool" where
  "past_race L now s =
     then_do (contains s ''date_end'') (\<lambda>present.
       if \<not> present then Inr False
       else then_do (subscript s ''date_end'') (\<lambda>date_end.
              (case date_end of
                 JStr e \<Rightarrow> then_do (parse_iso L (replace_Z e)) (\<lambda>dt. before_now dt now)
               | _ \<Rightarrow> Inl AttributeError)))"

fun filter_exn :: "('a \<Rightarrow> exn + bool) \<Rightarrow> 'a list \<Rightarrow> exn + 'a list" where
  "filter_exn p [] = Inr []"
| "filter_exn p (x # xs) =
     then_do (p x) (\<lambda>keep.
     then_do (filter_exn p xs) (\<lambda>kept. Inr (if keep then x # kept else kept)))"

text \<open>\<^verbatim>\<open>max(items, key=...)\<close> and \<^verbatim>\<open>min(items, key=...)\<close>: the candidate is replaced only by
  a strictly better one, so the first of several best items is returned.\<close>

fun max_loop :: "(json \<Rightarrow> exn + json) \<Rightarrow> json \<times> json \<Rightarrow> json list \<Rightarrow> exn + json" where
  "max_loop key (best, kbest) [] = Inr best"
| "max_loop key (best, kbest) (x # xs) =
     then_do (key x) (\<lambda>k.
     then_do (py_gt k kbest) (\<lambda>better.
       max_loop key (if better then (x, k) else (best, kbest)) xs))"

definition py_max :: "(json \<Rightarrow> exn + json) \<Rightarrow> json list \<Rightarrow> exn + json" where
  "py_max key items =
     (case items of [] \<Rightarrow> Inl ValueError
      | x # xs \<Rightarrow> then_do (key x) (\<lambda>k. max_loop key (x, k) xs))"

fun min_loop :: "(json \<Rightarrow> exn + json) \<Rightarrow> json \<times> json \<Rightarrow> json list \<Rightarrow> exn + json" where
  "min_loop key (best, kbest) [] = Inr best"
| "min_loop key (best, kbest) (x # xs) =
     then_do (key x) (\<lambda>k.
     then_do (py_gt kbest k) (\<lambda>better.
       min_loop key (if better then (x, k) else (best, kbest)) xs))"

definition py_min :: "(json \<Rightarrow> exn + json) \<Rightarrow> json list \<Rightarrow> exn + json" where
  "py_min key items =
     (case items of [] \<Rightarrow> Inl ValueError
      | x # xs \<Rightarrow> then_do (key x) (\<lambda>k. min_loop key (x, k) xs))"

text \<open>\<^verbatim>\<open>lap.get('lap_duration') and lap['lap_duration'] > 0\<close>.\<close>

definition valid_lap :: "json \<Rightarrow> exn + bool" where
  "valid_lap lap =
     then_do (get_default lap ''lap_duration'' JNull) (\<lambda>d.
       if \<not> truthy d then Inr False
       else then_do (subscript lap ''lap_duration'') (\<lambda>d'. py_gt d' (JInt 0)))"

text \<open>\<^verbatim>\<open>v[:10]\<close> on the value of \<^verbatim>\<open>date_start\<close>, then the \<^verbatim>\<open>str\<close> field.\<close>

definition date_prefix :: "pylib \<Rightarrow> json \<Rightarrow> exn + string" where
  "date_prefix L v =
     (case v of
        JStr s \<Rightarrow> Inr (take 10 s)
      | JArr xs \<Rightarrow> validate_str L (JArr (take 10 xs))
      | _ \<Rightarrow> Inl TypeError)"

text \<open>
  Lines 474 to 499, and the body of the loop of lines 545 to 570: the record made of one
  lap. A duration that reaches this point is a number.
\<close>

definition lap_record :: "pylib \<Rightarrow> json \<Rightarrow> json \<Rightarrow> json \<Rightarrow> exn + FastestLap" where
  "lap_record L latest_session session_key lap =
     then_do (subscript lap ''driver_number'') (\<lambda>driver_number.
     then_do (get_default lap ''lap_number'' (JInt 1)) (\<lambda>lap_number.
     then_do (hashable driver_number) (\<lambda>key.
     let info = lookup_driver_info L key in
     then_do (subscript lap ''lap_duration'') (\<lambda>duration.
     then_do (case num_of duration of None \<Rightarrow> Inl TypeError | Some d \<Rightarrow> Inr d) (\<lambda>d.
     let lap_time_text = format_lap_time d in
     then_do (get_sector_times session_key driver_number lap_number) (\<lambda>sectors.
     then_do (get_default latest_session ''meeting_name'' (JStr ''Unknown'')) (\<lambda>m.
     then_do (get_default latest_session ''date_start'' (JStr [])) (\<lambda>ds.
     then_do (date_prefix L ds) (\<lambda>day.
     then_do (validate_str L m) (\<lambda>m'.
       Inr \<lparr> lap_driver_name = info_name info, lap_abbreviation = info_abbr info,
             lap_team = info_team info, lap_time = lap_time_text, lap_race_name = m',
             lap_date = day, sector_times = sectors \<rparr>))))))))))"

text \<open>Lines 438 to 465 and 508 to 531, common to both functions: the most recent completed
  session, its key and its laps; \<open>None\<close> stands for the early returns of the fallback.\<close>

definition latest_session_laps ::
  "pylib \<Rightarrow> gateway \<Rightarrow> int \<Rightarrow> int \<Rightarrow> call list
     \<Rightarrow> (exn + (json \<times> json \<times> json list) option) \<times> call list" where
  "latest_session_laps L G year now calls =
     (case fetch_from_openf1 G (Sessions year) calls of
        (sessions0, calls0) \<Rightarrow>
          (case (if \<not> nonempty sessions0 then fetch_from_openf1 G (Sessions (year - 1)) calls0
                 else (sessions0, calls0)) of
             (sessions, calls1) \<Rightarrow>
               if \<not> nonempty sessions then (Inr None, calls1)
               else
                 (case filter_exn (past_race L now) (the sessions) of
                    Inl e \<Rightarrow> (Inl e, calls1)
                  | Inr past_races \<Rightarrow>
                      if past_races = [] then (Inr None, calls1)
                      else
                        (case then_do (py_max (\<lambda>s. subscript s ''date_end'') past_races)
                                (\<lambda>latest_session.
                                   then_do (subscript latest_session ''session_key'')
                                     (\<lambda>session_key. Inr (latest_session, session_key))) of
                           Inl e \<Rightarrow> (Inl e, calls1)
                         | Inr (latest_session, session_key) \<Rightarrow>
                             (case fetch_from_openf1 G (Laps session_key) calls1 of
                                (laps, calls2) \<Rightarrow>
                                  if \<not> nonempty laps then (Inr None, calls2)
                                  else (Inr (Some (latest_session, session_key, the laps)),
                                        calls2))))))"

text \<open>The \<^verbatim>\<open>try\<close> block of \<^verbatim>\<open>fetch_fastest_lap\<close>.\<close>

definition fastest_lap_attempt ::
  "pylib \<Rightarrow> gateway \<Rightarrow> int \<Rightarrow> int \<Rightarrow> call list \<Rightarrow> (exn + FastestLap) \<times> call list" where
  "fastest_lap_attempt L G year now calls =
     (case latest_session_laps L G year now calls of
        (Inl e, calls') \<Rightarrow> (Inl e, calls')
      | (Inr None, calls') \<Rightarrow> (Inr get_fallback_fastest_lap, calls')
      | (Inr (Some (latest_session, session_key, laps)), calls') \<Rightarrow>
          (case filter_exn valid_lap laps of
             Inl e \<Rightarrow> (Inl e, calls')
           | Inr valid_laps \<Rightarrow>
               if valid_laps = [] then (Inr get_fallback_fastest_lap, calls')
               else
                 (then_do (py_min (\<lambda>x. subscript x ''lap_duration'') valid_laps)
                    (\<lambda>fastest_lap. lap_record L latest_session session_key fastest_lap),
                  calls')))"

definition fetch_fastest_lap ::
  "pylib \<Rightarrow> gateway \<Rightarrow> int \<Rightarrow> int \<Rightarrow> call list \<Rightarrow> (exn + FastestLap) \<times> call list" where
  "fetch_fastest_lap L G year now calls =
     (case fastest_lap_attempt L G year now calls of
        (Inl e, calls') \<Rightarrow> (Inr get_fallback_fastest_lap, calls')
      | (Inr lap, calls') \<Rightarrow> (Inr lap, calls'))"

text \<open>The body of the loop of lines 535 to 539 on the dict \<^verbatim>\<open>driver_best_laps\<close>.\<close>

definition record_best_lap :: "fpdict \<Rightarrow> json \<Rightarrow> exn + fpdict" where
  "record_best_lap driver_best_laps lap =
     then_do (valid_lap lap) (\<lambda>valid.
       if \<not> valid then Inr driver_best_laps
       else
         then_do (subscript lap ''driver_number'') (\<lambda>dnum.
         then_do (hashable dnum) (\<lambda>key.
           (case map_of driver_best_laps (norm key) of
              None \<Rightarrow> Inr (AList.update (norm key) (key, lap) driver_best_laps)
            | Some (key0, best) \<Rightarrow>
                then_do (subscript lap ''lap_duration'') (\<lambda>d.
                then_do (subscript best ''lap_duration'') (\<lambda>d0.
                then_do (py_gt d0 d) (\<lambda>faster.
                  Inr (if faster then AList.update (norm key) (key0, lap) driver_best_laps
                       else driver_best_laps))))))))"

fun best_laps_from :: "fpdict \<Rightarrow> json list \<Rightarrow> exn + fpdict" where
  "best_laps_from best [] = Inr best"
| "best_laps_from best (lap # rest) =
     then_do (record_best_lap best lap) (\<lambda>best'. best_laps_from best' rest)"

text \<open>The duration of a lap as the sort key; the laps kept have numeric durations.\<close>

definition duration_of :: "json \<Rightarrow> exn + rat" where
  "duration_of lap =
     then_do (subscript lap ''lap_duration'') (\<lambda>d.
       (case num_of d of None \<Rightarrow> Inl TypeError | Some r \<Rightarrow> Inr r))"

fun map_exn :: "('a \<Rightarrow> exn + 'b) \<Rightarrow> 'a list \<Rightarrow> exn + 'b list" where
  "map_exn f [] = Inr []"
| "map_exn f (x # xs) = then_do (f x) (\<lambda>y. then_do (map_exn f xs) (\<lambda>ys. Inr (y # ys)))"

text \<open>Line 542: \<^verbatim>\<open>sorted(driver_best_laps.values(), key=...)[:10]\<close>.\<close>

definition top_laps :: "fpdict \<Rightarrow> exn + json list" where
  "top_laps driver_best_laps =
     (let laps = map (\<lambda>entry. snd (snd entry)) driver_best_laps in
      then_do (map_exn duration_of laps) (\<lambda>durations.
        Inr (take 10 (map snd (sort_key fst (zip durations laps))))))"

text \<open>The \<^verbatim>\<open>try\<close> block of \<^verbatim>\<open>fetch_fastest_laps\<close>.\<close>

definition fastest_laps_attempt ::
  "pylib \<Rightarrow> gateway \<Rightarrow> int \<Rightarrow> int \<Rightarrow> call list \<Rightarrow> (exn + FastestLap list) \<times> call list" where
  "fastest_laps_attempt L G year now calls =
     (case latest_session_laps L G year now calls of
        (Inl e, calls') \<Rightarrow> (Inl e, calls')
      | (Inr None, calls') \<Rightarrow> (Inr [get_fallback_fastest_lap], calls')
      | (Inr (Some (latest_session, session_key, laps)), calls') \<Rightarrow>
          (then_do (best_laps_from [] laps) (\<lambda>driver_best_laps.
           then_do (top_laps driver_best_laps) (\<lambda>top.
             map_exn (lap_record L latest_session session_key) top)),
           calls'))"

definition fetch_fastest_laps ::
  "pylib \<Rightarrow> gateway \<Rightarrow> int \<Rightarrow> int \<Rightarrow> call list \<Rightarrow> (exn + FastestLap list) \<times> call list" where
  "fetch_fastest_laps L G year now calls =
     (case fastest_laps_attempt L G year now calls of
        (Inl e, calls') \<Rightarrow> (Inr [get_fallback_fastest_lap], calls')
      | (Inr laps, calls') \<Rightarrow> (Inr laps, calls'))"



text \<open>
  Vocabulary for the statements about final positions: the car number of a position
  record as a dictionary key, and the relation "the timestamp of the first record is
  present, comparable and not after that of the second" in the order the code uses.
\<close>

definition car_of :: "json \<Rightarrow> pykey option" where
  "car_of pos =
     (case then_do (subscript pos ''driver_number'') hashable of
        Inr key \<Rightarrow> Some (norm key)
      | Inl e \<Rightarrow> None)"

definition not_later :: "json \<Rightarrow> json \<Rightarrow> bool" where
  "not_later r' r =
     (case then_do (subscript r' ''date'') (\<lambda>d'.
           then_do (subscript r ''date'') (\<lambda>d. py_gt d' d)) of
        Inr later \<Rightarrow> \<not> later
      | Inl e \<Rightarrow> False)"

text \<open>The property of the dictionary of final positions with respect to the set of records
  read so far: one entry per car number seen, holding a record of that car that no other
  record of the car is later than.\<close>

definition latest_per_car :: "fpdict \<Rightarrow> json set \<Rightarrow> bool" where
  "latest_per_car fp S \<longleftrightarrow>
     distinct (map fst fp) \<and>
     dom (map_of fp) = {k. \<exists>pos \<in> S. car_of pos = Some k} \<and>
     (\<forall>k key r. map_of fp k = Some (key, r) \<longrightarrow>
        r \<in> S \<and> car_of r = Some k \<and>
        (\<forall>r' \<in> S. car_of r' = Some k \<longrightarrow> r' = r \<or> not_later r' r))"

text \<open>The points of a driver: the total stored under the driver's key, the points of one
  retained record, the points a session gives the driver, and the position lists of the
  sessions the loop processes (those for which the provider answers with a non-empty
  list), fetched in the order of the loop.\<close>

definition total_of :: "driver_points \<Rightarrow> pykey \<times> string \<Rightarrow> int" where
  "total_of dpoints driver_key =
     (case map_of dpoints driver_key of None \<Rightarrow> 0 | Some (p, info) \<Rightarrow> p)"

definition driver_key_of :: "pylib \<Rightarrow> hkey \<Rightarrow> pykey \<times> string" where
  "driver_key_of L driver_number =
     (norm driver_number, info_name (lookup_driver_info L driver_number))"

definition position_points :: "json \<Rightarrow> int" where
  "position_points pos_data =
     (case then_do (subscript pos_data ''position'') points_for of
        Inr pts \<Rightarrow> pts | Inl e \<Rightarrow> 0)"

definition entry_points :: "pylib \<Rightarrow> pykey \<times> string \<Rightarrow> hkey \<times> json \<Rightarrow> int" where
  "entry_points L driver_key entry =
     (if driver_key_of L (fst entry) = driver_key then position_points (snd entry) else 0)"

definition session_points :: "pylib \<Rightarrow> pykey \<times> string \<Rightarrow> json list \<Rightarrow> int" where
  "session_points L driver_key positions =
     (case final_positions_of positions of
        Inl e \<Rightarrow> 0
      | Inr fp \<Rightarrow> sum_list (map (entry_points L driver_key) (map snd fp)))"

fun processed_sessions :: "gateway \<Rightarrow> json list \<Rightarrow> call list \<Rightarrow> json list list" where
  "processed_sessions G [] calls = []"
| "processed_sessions G (session # rest) calls =
     (case subscript session ''session_key'' of
        Inl e \<Rightarrow> []
      | Inr session_key \<Rightarrow>
          (case fetch_from_openf1 G (Positions session_key) calls of
             (positions, calls') \<Rightarrow>
               if \<not> nonempty positions then processed_sessions G rest calls'
               else the positions # processed_sessions G rest calls'))"

section \<open>A concrete library for the worked examples\<close>

text \<open>
  The library routines on the handful of values that the examples use, with the results
  CPython gives there: \<^verbatim>\<open>2024-12-08T15:00:00+00:00\<close> is 1733670000 seconds after the epoch,
  \<^verbatim>\<open>2031-03-01T15:00:00+00:00\<close> is 1930143600 and \<^verbatim>\<open>2031-03-08T15:00:00+00:00\<close> is 1930748400.
\<close>

definition example_lib :: pylib where
  "example_lib =
     \<lparr> fromisoformat = map_of
         [(''2024-12-08T15:00:00+00:00'', Aware 1733670000000000 0),
          (''2031-03-01T15:00:00+00:00'', Aware 1930143600000000 0),
          (''2031-03-08T15:00:00+00:00'', Aware 1930748400000000 0)],
       isoformat = (\<lambda>dt.
          if dt = Aware 1930143600000000 0 then ''2031-03-01T15:00:00+00:00''
          else if dt = Aware 1930748400000000 0 then ''2031-03-08T15:00:00+00:00''
          else ''2024-12-08T15:00:00+00:00''),
       strftime = (\<lambda>dt.
          if dt = Aware 1930143600000000 0 then ''2031-03-01 15:00 UTC''
          else if dt = Aware 1930748400000000 0 then ''2031-03-08 15:00 UTC''
          else ''2024-12-08 15:00 UTC''),
       repr_float = (\<lambda>r. []),
       float_of_str = (\<lambda>s. None),
       coerce_str = (\<lambda>v. None) \<rparr>"

text \<open>
  A gateway whose secondary provider knows one race session, ended on 8 December 2024, and
  answers every request for laps with the given list; the primary provider is down.
\<close>

definition abu_dhabi :: json where
  "abu_dhabi =
     JObj [(''session_key'', JInt 9662),
           (''meeting_name'', JStr ''Abu Dhabi Grand Prix''),
           (''date_start'', JStr ''2024-12-08T13:00:00+00:00''),
           (''date_end'', JStr ''2024-12-08T15:00:00+00:00'')]"

definition session_gateway :: "json list \<Rightarrow> gateway" where
  "session_gateway laps =
     \<lparr> f1api = (\<lambda>calls endpoint. None),
       openf1 = (\<lambda>calls endpoint.
          case endpoint of Sessions y \<Rightarrow> Some [abu_dhabi] | Laps k \<Rightarrow> Some laps
          | _ \<Rightarrow> None) \<rparr>"

text \<open>Three laps: car 1 in 91.5 s, car 44 in 90.5 s and in 95.25 s; and a lap without a
  time.\<close>

definition lap_ver :: json where
  "lap_ver = JObj [(''driver_number'', JInt 1), (''lap_number'', JInt 50),
                   (''lap_duration'', JFloat (183 / 2))]"

definition lap_ham :: json where
  "lap_ham = JObj [(''driver_number'', JInt 44), (''lap_number'', JInt 52),
                   (''lap_duration'', JFloat (181 / 2))]"

definition lap_ham_slow :: json where
  "lap_ham_slow = JObj [(''driver_number'', JInt 44), (''lap_number'', JInt 10),
                        (''lap_duration'', JFloat (381 / 4))]"

definition lap_untimed :: json where
  "lap_untimed = JObj [(''driver_number'', JInt 1), (''lap_number'', JInt 1),
                       (''lap_duration'', JNull)]"

text \<open>Midnight UTC of 1 January 2025, in microseconds.\<close>

definition new_year_2025 :: int where
  "new_year_2025 = 1735689600000000"

text \<open>Both providers down, and a secondary provider whose list of sessions holds a
  \<^verbatim>\<open>null\<close> instead of a session.\<close>

definition unavailable :: gateway where
  "unavailable = \<lparr> f1api = (\<lambda>calls endpoint. None), openf1 = (\<lambda>calls endpoint. None) \<rparr>"







text \<open>A primary provider whose driver and team standings list a 1-point entry before a
  5-point entry.\<close>

definition unsorted_gateway :: gateway where
  "unsorted_gateway =
     \<lparr> f1api = (\<lambda>calls endpoint.
          Some [(''standings'',
                 JArr [JObj [(''name'', JStr ''A''), (''points'', JInt 1)],
                       JObj [(''name'', JStr ''B''), (''points'', JInt 5)]])]),
       openf1 = (\<lambda>calls endpoint. None) \<rparr>"

text \<open>Position records of two races. In the first, car 44 is third early on and first at
  the flag, car 1 second, car 99 eleventh; in the second, car 1 wins and car 44 is third.\<close>

definition pos_ham_early :: json where
  "pos_ham_early = JObj [(''driver_number'', JInt 44), (''date'', JStr ''2024-12-08T13:05:00''),
                         (''position'', JInt 3)]"

definition pos_ver_final :: json where
  "pos_ver_final = JObj [(''driver_number'', JInt 1), (''date'', JStr ''2024-12-08T14:35:10''),
                         (''position'', JInt 2)]"

definition pos_ham_final :: json where
  "pos_ham_final = JObj [(''driver_number'', JInt 44), (''date'', JStr ''2024-12-08T14:35:00''),
                         (''position'', JInt 1)]"

definition pos_new_final :: json where
  "pos_new_final = JObj [(''driver_number'', JInt 99), (''date'', JStr ''2024-12-08T14:36:00''),
                         (''position'', JInt 11)]"

definition pos_ver_second :: json where
  "pos_ver_second = JObj [(''driver_number'', JInt 1), (''date'', JStr ''2024-12-01T17:40:00''),
                          (''position'', JInt 1)]"

definition pos_ham_second :: json where
  "pos_ham_second = JObj [(''driver_number'', JInt 44), (''date'', JStr ''2024-12-01T17:40:30''),
                          (''position'', JInt 3)]"

definition first_race_positions :: "json list" where
  "first_race_positions = [pos_ham_early, pos_ver_final, pos_ham_final, pos_new_final]"

definition second_race_positions :: "json list" where
  "second_race_positions = [pos_ver_second, pos_ham_second]"

definition two_sessions :: "json list" where
  "two_sessions = [JObj [(''session_key'', JInt 9662)], JObj [(''session_key'', JInt 9655)]]"

definition results_gateway :: gateway where
  "results_gateway =
     \<lparr> f1api = (\<lambda>calls endpoint. None),
       openf1 = (\<lambda>calls endpoint.
          case endpoint of
            Sessions y \<Rightarrow> Some two_sessions
          | Positions k \<Rightarrow> (if k = JInt 9662 then Some first_race_positions
                             else if k = JInt 9655 then Some second_race_positions
                             else None)
          | _ \<Rightarrow> None) \<rparr>"

section \<open>Verification: countdown\<close>










section \<open>Verification: lap-time text\<close>

lemma str_nat_1: "n < 10 \<Longrightarrow> str_nat n = [digit_char n]"
  by (simp add: str_nat.simps)

lemma str_nat_2:
  "10 \<le> n \<Longrightarrow> n < 100 \<Longrightarrow> str_nat n = [digit_char (n div 10), digit_char (n mod 10)]"
  by (subst str_nat.simps) (simp add: str_nat_1)












section \<open>Verification: fastest lap\<close>

lemma then_do_Inr_iff: "then_do m f = Inr v \<longleftrightarrow> (\<exists>x. m = Inr x \<and> f x = Inr v)"
  by (cases m) simp_all

lemma then_do_Inl_iff: "then_do m f = Inl e \<longleftrightarrow> m = Inl e \<or> (\<exists>x. m = Inr x \<and> f x = Inl e)"
  by (cases m) simp_all

lemma lap_record_raises: "lap_record L latest_session session_key lap \<noteq> Inr r"
  by (auto simp: lap_record_def Let_def then_do_Inr_iff get_sector_times_def)

lemma map_exn_lap_record:
  "map_exn (lap_record L latest_session session_key) laps = Inr rs \<Longrightarrow> laps = [] \<and> rs = []"
  by (cases laps) (auto simp: then_do_Inr_iff lap_record_raises)

lemma fastest_lap_attempt_cases:
  "fst (fastest_lap_attempt L G year now calls) = Inr r \<Longrightarrow> r = get_fallback_fastest_lap"
  by (auto simp: fastest_lap_attempt_def then_do_Inr_iff lap_record_raises
      split: prod.splits sum.splits option.splits if_splits)

lemma fetch_fastest_lap_fallback:
  "fst (fetch_fastest_lap L G year now calls) = Inr get_fallback_fastest_lap"
  using fastest_lap_attempt_cases [of L G year now calls]
  by (auto simp: fetch_fastest_lap_def split: prod.splits sum.splits)

lemma fastest_laps_attempt_cases:
  "fst (fastest_laps_attempt L G year now calls) = Inr rs \<Longrightarrow>
     rs = [get_fallback_fastest_lap] \<or> rs = []"
  by (auto simp: fastest_laps_attempt_def then_do_Inr_iff
      split: prod.splits sum.splits option.splits if_splits dest: map_exn_lap_record)

lemma fetch_fastest_laps_cases:
  "fst (fetch_fastest_laps L G year now calls) = Inr [get_fallback_fastest_lap] \<or>
   fst (fetch_fastest_laps L G year now calls) = Inr []"
  using fastest_laps_attempt_cases [of L G year now calls]
  by (auto simp: fetch_fastest_laps_def split: prod.splits sum.splits)


lemma record_best_lap_empty:
  assumes "record_best_lap best lap = Inr []"
  shows "best = [] \<and> valid_lap lap = Inr False"
  using assms
  by (auto simp: record_best_lap_def then_do_Inr_iff
      split: if_splits option.splits prod.splits)

lemma best_laps_from_empty:
  "best_laps_from best laps = Inr [] \<Longrightarrow> best = [] \<and> filter_exn valid_lap laps = Inr []"
proof (induction laps arbitrary: best)
  case Nil
  then show ?case by simp
next
  case (Cons lap rest)
  from Cons.prems obtain b1 where b1: "record_best_lap best lap = Inr b1"
    and r: "best_laps_from b1 rest = Inr []"
    by (auto simp: then_do_Inr_iff)
  from Cons.IH [OF r] have "b1 = []" and f: "filter_exn valid_lap rest = Inr []" by simp_all
  with b1 record_best_lap_empty [of best lap] show ?case by simp
qed

lemma best_laps_from_none_valid:
  "filter_exn valid_lap laps = Inr [] \<Longrightarrow> best_laps_from best laps = Inr best"
proof (induction laps)
  case Nil
  then show ?case by simp
next
  case (Cons lap rest)
  from Cons.prems have v: "valid_lap lap = Inr False" and f: "filter_exn valid_lap rest = Inr []"
    by (auto simp: then_do_Inr_iff split: if_splits)
  from v have "record_best_lap best lap = Inr best"
    by (simp add: record_best_lap_def)
  with Cons.IH [OF f] show ?case by simp
qed

lemma map_exn_length: "map_exn f xs = Inr ys \<Longrightarrow> length ys = length xs"
  by (induction xs arbitrary: ys) (auto simp: then_do_Inr_iff)

lemma top_laps_empty: "top_laps best = Inr [] \<longleftrightarrow> best = []"
proof
  assume "top_laps best = Inr []"
  then obtain ds where ds: "map_exn duration_of (map (\<lambda>entry. snd (snd entry)) best) = Inr ds"
    and e: "take 10 (map snd (sort_key fst (zip ds (map (\<lambda>entry. snd (snd entry)) best)))) = []"
    by (auto simp: top_laps_def Let_def then_do_Inr_iff)
  from e have "sort_key fst (zip ds (map (\<lambda>entry. snd (snd entry)) best)) = []"
    by simp
  then have "length (sort_key fst (zip ds (map (\<lambda>entry. snd (snd entry)) best))) = 0"
    by simp
  then have "length (zip ds (map (\<lambda>entry. snd (snd entry)) best)) = 0"
    by (simp only: length_sort)
  with map_exn_length [OF ds] show "best = []" by simp
next
  assume "best = []"
  then show "top_laps best = Inr []" by (simp add: top_laps_def)
qed

lemma fetch_fastest_laps_empty_iff:
  "fst (fetch_fastest_laps L G year now calls) = Inr [] \<longleftrightarrow>
     (\<exists>latest_session session_key laps.
        fst (latest_session_laps L G year now calls)
          = Inr (Some (latest_session, session_key, laps))
        \<and> filter_exn valid_lap laps = Inr [])"
proof
  assume "fst (fetch_fastest_laps L G year now calls) = Inr []"
  then obtain ls sk laps c where l: "latest_session_laps L G year now calls = (Inr (Some (ls, sk, laps)), c)"
    and r: "then_do (best_laps_from [] laps) (\<lambda>driver_best_laps.
           then_do (top_laps driver_best_laps) (\<lambda>top.
             map_exn (lap_record L ls sk) top)) = Inr []"
    by (auto simp: fetch_fastest_laps_def fastest_laps_attempt_def
        split: prod.splits sum.splits option.splits)
  from r obtain best tl where b: "best_laps_from [] laps = Inr best" and t: "top_laps best = Inr tl"
    and m: "map_exn (lap_record L ls sk) tl = Inr []"
    by (auto simp: then_do_Inr_iff)
  from map_exn_lap_record [OF m] have "tl = []" by simp
  with t have "best = []" by (simp add: top_laps_empty)
  with b best_laps_from_empty have "filter_exn valid_lap laps = Inr []" by blast
  with l show "\<exists>latest_session session_key laps.
        fst (latest_session_laps L G year now calls)
          = Inr (Some (latest_session, session_key, laps))
        \<and> filter_exn valid_lap laps = Inr []" by auto
next
  assume "\<exists>latest_session session_key laps.
        fst (latest_session_laps L G year now calls)
          = Inr (Some (latest_session, session_key, laps))
        \<and> filter_exn valid_lap laps = Inr []"
  then obtain ls sk laps where l: "fst (latest_session_laps L G year now calls) = Inr (Some (ls, sk, laps))"
    and f: "filter_exn valid_lap laps = Inr []" by blast
  from best_laps_from_none_valid [OF f] have "best_laps_from [] laps = Inr []" .
  moreover have "top_laps [] = Inr []" by (simp add: top_laps_empty)
  ultimately show "fst (fetch_fastest_laps L G year now calls) = Inr []"
    using l
    by (auto simp: fetch_fastest_laps_def fastest_laps_attempt_def
        split: prod.splits sum.splits option.splits)
qed

lemma past_abu_dhabi: "past_race example_lib new_year_2025 abu_dhabi = Inr True"
  by (simp add: past_race_def abu_dhabi_def parse_iso_def example_lib_def replace_Z_def
      new_year_2025_def)

lemma latest_session_laps_example:
  "laps \<noteq> [] \<Longrightarrow>
   latest_session_laps example_lib (session_gateway laps) 2025 new_year_2025 [] =
     (Inr (Some (abu_dhabi, JInt 9662, laps)), [OpenF1 (Sessions 2025), OpenF1 (Laps (JInt 9662))])"
  by (simp add: latest_session_laps_def fetch_from_openf1_def session_gateway_def past_abu_dhabi
      py_max_def) (simp add: abu_dhabi_def fetch_from_openf1_def session_gateway_def)

lemma untimed_invalid: "filter_exn valid_lap [lap_untimed] = Inr []"
  by (simp add: valid_lap_def lap_untimed_def)

lemma valid_three:
  "filter_exn valid_lap [lap_ver, lap_ham, lap_ham_slow] = Inr [lap_ver, lap_ham, lap_ham_slow]"
  by (simp add: valid_lap_def lap_ver_def lap_ham_def lap_ham_slow_def)

lemma fastest_three:
  "py_min (\<lambda>x. subscript x ''lap_duration'') [lap_ver, lap_ham, lap_ham_slow] = Inr lap_ham"
  by (simp add: py_min_def lap_ver_def lap_ham_def lap_ham_slow_def)

lemma best_three:
  "best_laps_from [] [lap_ver, lap_ham, lap_ham_slow] =
     Inr [(KNum 1, HInt 1, lap_ver), (KNum 44, HInt 44, lap_ham)]"
  by (simp add: record_best_lap_def valid_lap_def lap_ver_def lap_ham_def lap_ham_slow_def)

lemma top_three:
  "top_laps [(KNum 1, HInt 1, lap_ver), (KNum 44, HInt 44, lap_ham)] = Inr [lap_ham, lap_ver]"
  by (simp add: top_laps_def duration_of_def lap_ver_def lap_ham_def)

text \<open>
  Claim C1, at a failing input. The secondary provider reports one completed session with
  three valid laps, the fastest being the 90.5 s lap of car 44. Building the record of
  that lap raises \<^verbatim>\<open>NameError\<close>, and the operation returns the static fallback record
  instead of the lap of the session.
\<close>

theorem fastest_lap_discarded:
  "fst (latest_session_laps example_lib (session_gateway [lap_ver, lap_ham, lap_ham_slow])
          2025 new_year_2025 [])
     = Inr (Some (abu_dhabi, JInt 9662, [lap_ver, lap_ham, lap_ham_slow])) \<and>
   filter_exn valid_lap [lap_ver, lap_ham, lap_ham_slow]
     = Inr [lap_ver, lap_ham, lap_ham_slow] \<and>
   py_min (\<lambda>x. subscript x ''lap_duration'') [lap_ver, lap_ham, lap_ham_slow] = Inr lap_ham \<and>
   lap_record example_lib abu_dhabi (JInt 9662) lap_ham = Inl NameError \<and>
   fst (fetch_fastest_lap example_lib (session_gateway [lap_ver, lap_ham, lap_ham_slow])
          2025 new_year_2025 [])
     = Inr get_fallback_fastest_lap"
proof -
  have "lap_record example_lib abu_dhabi (JInt 9662) lap_ham = Inl NameError"
    by (simp add: lap_record_def lap_ham_def get_sector_times_def Let_def)
  then show ?thesis
    using latest_session_laps_example [of "[lap_ver, lap_ham, lap_ham_slow]"]
      valid_three fastest_three
    by (simp add: fetch_fastest_lap_fallback)
qed

text \<open>
  Claim C2 fails as stated: when the laps of the selected session are fetched and none of
  them has a positive duration, \<^verbatim>\<open>fetch_fastest_laps\<close> returns the empty list, not the
  one-element list of the fallback record.
\<close>

theorem fetch_fastest_laps_not_always_fallback:
  "fst (fetch_fastest_laps example_lib (session_gateway [lap_untimed]) 2025 new_year_2025 [])
     \<noteq> Inr [get_fallback_fastest_lap]"
proof -
  have "fst (fetch_fastest_laps example_lib (session_gateway [lap_untimed]) 2025
          new_year_2025 []) = Inr []"
    using latest_session_laps_example [of "[lap_untimed]"] untimed_invalid
    by (simp add: fetch_fastest_laps_empty_iff)
  then show ?thesis by simp
qed

text \<open>
  Claim C2, amended. For every library behaviour, gateway, year and clock,
  \<^verbatim>\<open>fetch_fastest_lap\<close> returns the static fallback record, and \<^verbatim>\<open>fetch_fastest_laps\<close>
  returns either the one-element list of that record or the empty list; it returns the
  empty list exactly when the laps of the most recent completed session are fetched and
  none of them has a positive duration.
\<close>

theorem fastest_lap_results:
  "fst (fetch_fastest_lap L G year now calls) = Inr get_fallback_fastest_lap \<and>
   (fst (fetch_fastest_laps L G year now calls) = Inr [get_fallback_fastest_lap] \<or>
    fst (fetch_fastest_laps L G year now calls) = Inr []) \<and>
   (fst (fetch_fastest_laps L G year now calls) = Inr [] \<longleftrightarrow>
      (\<exists>latest_session session_key laps.
         fst (latest_session_laps L G year now calls)
           = Inr (Some (latest_session, session_key, laps))
         \<and> filter_exn valid_lap laps = Inr []))"
  using fetch_fastest_lap_fallback [of L G year now calls]
    fetch_fastest_laps_cases [of L G year now calls]
    fetch_fastest_laps_empty_iff [of L G year now calls]
  by blast

theorem fastest_lap_results_witness:
  "fst (latest_session_laps example_lib (session_gateway [lap_untimed]) 2025 new_year_2025 [])
     = Inr (Some (abu_dhabi, JInt 9662, [lap_untimed])) \<and>
   filter_exn valid_lap [lap_untimed] = Inr [] \<and>
   fst (fetch_fastest_lap example_lib (session_gateway [lap_untimed]) 2025 new_year_2025 [])
     = Inr get_fallback_fastest_lap \<and>
   fst (fetch_fastest_laps example_lib (session_gateway [lap_untimed]) 2025 new_year_2025 [])
     = Inr []"
  using fastest_lap_results [of example_lib "session_gateway [lap_untimed]" 2025
      new_year_2025 "[]"]
    latest_session_laps_example [of "[lap_untimed]"] untimed_invalid
  by auto

text \<open>
  Claim C9, at a failing input. For the same session the per-car best laps, sorted by
  duration, are the 90.5 s lap of car 44 and the 91.5 s lap of car 1; the list returned
  holds neither, only the static fallback record.
\<close>

theorem top_laps_discarded:
  "then_do (best_laps_from [] [lap_ver, lap_ham, lap_ham_slow]) top_laps
     = Inr [lap_ham, lap_ver] \<and>
   fst (fetch_fastest_laps example_lib (session_gateway [lap_ver, lap_ham, lap_ham_slow])
          2025 new_year_2025 [])
     = Inr [get_fallback_fastest_lap]"
proof -
  have "fst (fetch_fastest_laps example_lib (session_gateway [lap_ver, lap_ham, lap_ham_slow])
          2025 new_year_2025 []) \<noteq> Inr []"
    using latest_session_laps_example [of "[lap_ver, lap_ham, lap_ham_slow]"] valid_three
    by (simp add: fetch_fastest_laps_empty_iff)
  then have b: "fst (fetch_fastest_laps example_lib
                (session_gateway [lap_ver, lap_ham, lap_ham_slow]) 2025 new_year_2025 [])
          = Inr [get_fallback_fastest_lap]"
    using fetch_fastest_laps_cases
      [of example_lib "session_gateway [lap_ver, lap_ham, lap_ham_slow]" 2025
        new_year_2025 "[]"]
    by blast
  have a: "then_do (best_laps_from [] [lap_ver, lap_ham, lap_ham_slow]) top_laps
             = Inr [lap_ham, lap_ver]"
    by (simp only: best_three then_do.simps top_three)
  from a b show ?thesis by (rule conjI)
qed

section \<open>Verification: no resolver raises\<close>















section \<open>Verification: next race\<close>






lemma earliest_least:
  assumes "x \<in> set up"
  shows "utc_instant (snd (earliest up)) \<le> utc_instant (snd x)"
proof -
  let ?s = "sort_key (\<lambda>x. utc_instant (snd x)) up"
  have ne: "?s \<noteq> []" using assms by (metis empty_iff empty_set set_sort)
  have srt: "sorted (map (\<lambda>x. utc_instant (snd x)) ?s)" by (rule sorted_sort_key)
  from ne obtain h t where ht: "?s = h # t" by (cases ?s) auto
  have "x \<in> set ?s" using assms by simp
  with srt ht show ?thesis by (auto simp: earliest_def)
qed
















section \<open>Verification: standings are ranked\<close>

lemma driver_entry_position: "driver_entry L i d = Inr r \<Longrightarrow> position r = int i + 1"
  by (auto simp: driver_entry_def then_do_Inr_iff)

lemma team_entry_position: "team_entry L i d = Inr r \<Longrightarrow> team_position r = int i + 1"
  by (auto simp: team_entry_def then_do_Inr_iff)

lemma driver_entries_positions:
  "driver_entries L i xs = Inr ds \<Longrightarrow>
     length ds = length xs \<and> map position ds = map (\<lambda>j. int j + 1) [i..<i + length xs]"
proof (induction xs arbitrary: i ds)
  case Nil
  then show ?case by simp
next
  case (Cons x xs)
  from Cons.prems obtain d rest where d: "driver_entry L i x = Inr d"
    and r: "driver_entries L (Suc i) xs = Inr rest" and ds: "ds = d # rest"
    by (auto simp: then_do_Inr_iff)
  have "[i..<i + length (x # xs)] = i # [Suc i..<Suc i + length xs]"
    by (simp add: upt_conv_Cons del: upt_Suc)
  with Cons.IH [OF r] driver_entry_position [OF d] ds show ?case
    by (simp del: upt_Suc)
qed

lemma team_entries_positions:
  "team_entries L i xs = Inr ts \<Longrightarrow>
     length ts = length xs \<and> map team_position ts = map (\<lambda>j. int j + 1) [i..<i + length xs]"
proof (induction xs arbitrary: i ts)
  case Nil
  then show ?case by simp
next
  case (Cons x xs)
  from Cons.prems obtain d rest where d: "team_entry L i x = Inr d"
    and r: "team_entries L (Suc i) xs = Inr rest" and ts: "ts = d # rest"
    by (auto simp: then_do_Inr_iff)
  have "[i..<i + length (x # xs)] = i # [Suc i..<Suc i + length xs]"
    by (simp add: upt_conv_Cons del: upt_Suc)
  with Cons.IH [OF r] team_entry_position [OF d] ts show ?case
    by (simp del: upt_Suc)
qed

lemma ranks_eq: "map (\<lambda>j. int j + 1) [0..<n] = map int [1..<Suc n]"
proof -
  have "[1..<Suc n] = map Suc [0..<n]"
    by (simp add: map_Suc_upt del: upt_Suc)
  then show ?thesis by (simp add: comp_def del: upt_Suc)
qed

lemma ranks_increasing: "sorted_wrt (<) (map int [1..<Suc n])"
  by (simp add: sorted_wrt_map del: upt_Suc)

lemma slice10_length: "slice10 v = Inr xs \<Longrightarrow> length xs \<le> 10"
  by (cases v) auto

lemma drivers_from_api_positions:
  assumes "drivers_from_api L data = Inr ds"
  shows "length ds \<le> 10 \<and> map position ds = map int [1..<Suc (length ds)]"
proof -
  from assms obtain v xs where "slice10 v = Inr xs" and e: "driver_entries L 0 xs = Inr ds"
    by (auto simp: drivers_from_api_def then_do_Inr_iff)
  then have "length xs \<le> 10" by (simp add: slice10_length)
  with driver_entries_positions [OF e] show ?thesis by (simp add: ranks_eq)
qed

lemma teams_from_api_positions:
  assumes "teams_from_api L data = Inr ts"
  shows "length ts \<le> 10 \<and> map team_position ts = map int [1..<Suc (length ts)]"
proof -
  from assms obtain v xs where "slice10 v = Inr xs" and e: "team_entries L 0 xs = Inr ts"
    by (auto simp: teams_from_api_def then_do_Inr_iff)
  then have "length xs \<le> 10" by (simp add: slice10_length)
  with team_entries_positions [OF e] show ?thesis by (simp add: ranks_eq)
qed

lemma map_fst_zip_fun:
  "length xs = length ys \<Longrightarrow> map (\<lambda>x. f (fst x)) (zip xs ys) = map f xs"
  by (induction xs ys rule: list_induct2) auto

lemma map_snd_zip_fun:
  "length xs = length ys \<Longrightarrow> map (\<lambda>x. f (snd x)) (zip xs ys) = map f ys"
  by (induction xs ys rule: list_induct2) auto

lemma rank_drivers_positions:
  "length (rank_drivers dp) \<le> 10 \<and>
   map position (rank_drivers dp) = map int [1..<Suc (length (rank_drivers dp))]"
proof -
  let ?xs = "take 10 (sort_key (\<lambda>(key, (pts, info)). - pts) dp)"
  have "map position (rank_drivers dp) = map (\<lambda>x. int (fst x) + 1) (zip [0..<length ?xs] ?xs)"
    unfolding rank_drivers_def enumerate_eq_zip
    by (simp add: case_prod_beta comp_def del: upt_Suc)
  also have "\<dots> = map (\<lambda>j. int j + 1) [0..<length ?xs]"
    by (rule map_fst_zip_fun) simp
  finally have "map position (rank_drivers dp) = map (\<lambda>j. int j + 1) [0..<length ?xs]" .
  moreover have "length (rank_drivers dp) = length ?xs"
    by (simp add: rank_drivers_def)
  ultimately show ?thesis by (simp add: ranks_eq del: upt_Suc)
qed

lemma rank_teams_positions:
  "length (rank_teams tp) \<le> 10 \<and>
   map team_position (rank_teams tp) = map int [1..<Suc (length (rank_teams tp))]"
proof -
  let ?xs = "take 10 (sort_key (\<lambda>(name, pts). - pts) tp)"
  have "map team_position (rank_teams tp)
          = map (\<lambda>x. int (fst x) + 1) (zip [0..<length ?xs] ?xs)"
    unfolding rank_teams_def enumerate_eq_zip
    by (simp add: case_prod_beta comp_def del: upt_Suc)
  also have "\<dots> = map (\<lambda>j. int j + 1) [0..<length ?xs]"
    by (rule map_fst_zip_fun) simp
  finally have "map team_position (rank_teams tp) = map (\<lambda>j. int j + 1) [0..<length ?xs]" .
  moreover have "length (rank_teams tp) = length ?xs"
    by (simp add: rank_teams_def)
  ultimately show ?thesis by (simp add: ranks_eq del: upt_Suc)
qed

lemma sorted_desc_take:
  fixes f :: "'a \<Rightarrow> int"
  shows "sorted_wrt (\<lambda>a b. f b \<le> f a) (take n (sort_key (\<lambda>x. - f x) xs))"
proof -
  have "sorted (map (\<lambda>x. - f x) (sort_key (\<lambda>x. - f x) xs))"
    by (rule sorted_sort_key)
  then have "sorted_wrt (\<lambda>a b. f b \<le> f a) (sort_key (\<lambda>x. - f x) xs)"
    by (simp add: sorted_wrt_map)
  then show ?thesis by (rule sorted_wrt_take)
qed

lemma rank_drivers_points: "sorted_wrt (\<lambda>a b. b \<le> a) (map points (rank_drivers dp))"
proof -
  let ?xs = "take 10 (sort_key (\<lambda>x. - fst (snd x)) dp)"
  have k: "(\<lambda>(key, (pts, info)). - pts) = (\<lambda>x. - fst (snd x))"
    by (simp add: fun_eq_iff split: prod.splits)
  have "map points (rank_drivers dp)
          = map (\<lambda>x. rat_of_int (fst (snd (snd x)))) (zip [0..<length ?xs] ?xs)"
    unfolding rank_drivers_def enumerate_eq_zip k
    by (simp add: case_prod_beta comp_def del: upt_Suc)
  also have "\<dots> = map (\<lambda>y. rat_of_int (fst (snd y))) ?xs"
    by (rule map_snd_zip_fun) simp
  finally have "map points (rank_drivers dp) = map (\<lambda>y. rat_of_int (fst (snd y))) ?xs" .
  moreover have "sorted_wrt (\<lambda>a b. fst (snd b) \<le> fst (snd a)) ?xs"
    by (rule sorted_desc_take)
  ultimately show ?thesis by (simp add: sorted_wrt_map)
qed

lemma rank_teams_points: "sorted_wrt (\<lambda>a b. b \<le> a) (map team_points (rank_teams tp))"
proof -
  let ?xs = "take 10 (sort_key (\<lambda>x. - snd x) tp)"
  have k: "(\<lambda>(name, pts). - pts) = (\<lambda>x. - snd x)"
    by (simp add: fun_eq_iff split: prod.splits)
  have "map team_points (rank_teams tp)
          = map (\<lambda>x. rat_of_int (snd (snd x))) (zip [0..<length ?xs] ?xs)"
    unfolding rank_teams_def enumerate_eq_zip k
    by (simp add: case_prod_beta comp_def del: upt_Suc)
  also have "\<dots> = map (\<lambda>y. rat_of_int (snd y)) ?xs"
    by (rule map_snd_zip_fun) simp
  finally have "map team_points (rank_teams tp) = map (\<lambda>y. rat_of_int (snd y)) ?xs" .
  moreover have "sorted_wrt (\<lambda>a b. snd b \<le> snd a) ?xs"
    by (rule sorted_desc_take)
  ultimately show ?thesis by (simp add: sorted_wrt_map)
qed

lemma fallback_standings_ranked:
  "map position (fst get_fallback_standings) = map int [1..<Suc 3] \<and>
   map team_position (snd get_fallback_standings) = map int [1..<Suc 3] \<and>
   sorted_wrt (\<lambda>a b. b \<le> a) (map points (fst get_fallback_standings)) \<and>
   sorted_wrt (\<lambda>a b. b \<le> a) (map team_points (snd get_fallback_standings))"
  by (simp add: get_fallback_standings_def upt_rec)

lemma calculate_standings_cases:
  assumes "fst (calculate_standings_from_results L G year calls) = Inr (ds, ts)"
  shows "(ds, ts) = get_fallback_standings \<or> (\<exists>dp tp. ds = rank_drivers dp \<and> ts = rank_teams tp)"
  using assms
  by (auto simp: calculate_standings_from_results_def standings_attempt_def
      split: prod.splits sum.splits if_splits)

lemma calculate_standings_ranked:
  assumes "fst (calculate_standings_from_results L G year calls) = Inr (ds, ts)"
  shows "length ds \<le> 10 \<and> map position ds = map int [1..<Suc (length ds)] \<and>
         sorted_wrt (\<lambda>a b. b \<le> a) (map points ds) \<and>
         length ts \<le> 10 \<and> map team_position ts = map int [1..<Suc (length ts)] \<and>
         sorted_wrt (\<lambda>a b. b \<le> a) (map team_points ts)"
proof -
  from calculate_standings_cases [OF assms]
  consider "ds = fst get_fallback_standings" "ts = snd get_fallback_standings"
    | dp tp where "ds = rank_drivers dp" "ts = rank_teams tp"
    by (metis fst_conv snd_conv)
  then show ?thesis
  proof cases
    case 1
    have "length (fst get_fallback_standings) = 3" "length (snd get_fallback_standings) = 3"
      by (simp_all add: get_fallback_standings_def)
    with 1 fallback_standings_ranked show ?thesis by simp
  next
    case 2
    with rank_drivers_positions [of dp] rank_teams_positions [of tp]
      rank_drivers_points [of dp] rank_teams_points [of tp]
    show ?thesis by simp
  qed
qed

lemma fetch_driver_standings_ranked:
  assumes "fst (fetch_driver_standings L G year calls) = Inr ds"
  shows "length ds \<le> 10 \<and> map position ds = map int [1..<Suc (length ds)]"
proof -
  obtain data calls' where f: "fetch_from_f1api_dev G (DriverStandings year) calls = (data, calls')"
    by (cases "fetch_from_f1api_dev G (DriverStandings year) calls")
  let ?p = "if has_key data ''standings'' then drivers_from_api L (the data) else Inl KeyError"
  show ?thesis
  proof (cases ?p)
    case (Inr top)
    with assms f have "ds = top" by (simp add: fetch_driver_standings_def)
    moreover from Inr have "drivers_from_api L (the data) = Inr top"
      by (simp split: if_splits)
    ultimately show ?thesis using drivers_from_api_positions by blast
  next
    case (Inl e)
    with assms f obtain ts where
      "fst (calculate_standings_from_results L G year calls') = Inr (ds, ts)"
      by (auto simp: fetch_driver_standings_def split: prod.splits sum.splits)
    from calculate_standings_ranked [OF this] show ?thesis by simp
  qed
qed

lemma fetch_constructor_standings_ranked:
  assumes "fst (fetch_constructor_standings L G year calls) = Inr ts"
  shows "length ts \<le> 10 \<and> map team_position ts = map int [1..<Suc (length ts)]"
proof -
  obtain data calls' where f: "fetch_from_f1api_dev G (TeamStandings year) calls = (data, calls')"
    by (cases "fetch_from_f1api_dev G (TeamStandings year) calls")
  let ?p = "if has_key data ''standings'' then teams_from_api L (the data) else Inl KeyError"
  show ?thesis
  proof (cases ?p)
    case (Inr top)
    with assms f have "ts = top" by (simp add: fetch_constructor_standings_def)
    moreover from Inr have "teams_from_api L (the data) = Inr top"
      by (simp split: if_splits)
    ultimately show ?thesis using teams_from_api_positions by blast
  next
    case (Inl e)
    with assms f obtain ds where
      "fst (calculate_standings_from_results L G year calls') = Inr (ds, ts)"
      by (auto simp: fetch_constructor_standings_def split: prod.splits sum.splits)
    from calculate_standings_ranked [OF this] show ?thesis by simp
  qed
qed

lemma unsorted_drivers:
  "fst (fetch_driver_standings example_lib unsorted_gateway 2025 []) =
     Inr [\<lparr> position = 1, driver_name = ''A'', abbrev = ''UNK'', team = ''Unknown'',
             points = 1 \<rparr>,
          \<lparr> position = 2, driver_name = ''B'', abbrev = ''UNK'', team = ''Unknown'',
             points = 5 \<rparr>]"
  by (simp add: fetch_driver_standings_def fetch_from_f1api_dev_def unsorted_gateway_def
      has_key_def drivers_from_api_def driver_entry_def py_float_def validate_str_def)

lemma unavailable_standings_value:
  "fst (calculate_standings_from_results example_lib unavailable 2025 [])
     = Inr get_fallback_standings"
  by (simp add: calculate_standings_from_results_def standings_attempt_def fetch_from_openf1_def
      unavailable_def)

text \<open>
  Claim C3 fails as stated on the primary path: the list keeps the order of the provider's
  response, so a response that lists 1 point before 5 points yields positions 1 and 2 with
  increasing points.
\<close>

theorem primary_standings_unsorted:
  "fst (fetch_driver_standings example_lib unsorted_gateway 2025 []) =
     Inr [\<lparr> position = 1, driver_name = ''A'', abbrev = ''UNK'', team = ''Unknown'',
             points = 1 \<rparr>,
          \<lparr> position = 2, driver_name = ''B'', abbrev = ''UNK'', team = ''Unknown'',
             points = 5 \<rparr>] \<and>
   \<not> sorted_wrt (\<lambda>a b. b \<le> a)
       (map points
          [\<lparr> position = 1, driver_name = ''A'', abbrev = ''UNK'', team = ''Unknown'',
              points = 1 \<rparr>,
           \<lparr> position = 2, driver_name = ''B'', abbrev = ''UNK'', team = ''Unknown'',
              points = 5 \<rparr>])"
  using unsorted_drivers by simp

text \<open>
  Claim C3, amended. Every list returned by the driver-standings and the team-standings
  operation has at most 10 entries whose positions are exactly 1 to k in list order, hence
  strictly increasing. On the path derived from race results and on the static fallback
  path (the two outcomes of \<^verbatim>\<open>calculate_standings_from_results\<close>) the points are
  moreover non-increasing along the list; on the primary path the points are those of
  the provider's response, in its order.
\<close>

theorem standings_ranked:
  "(fst (fetch_driver_standings L G year calls) = Inr ds \<longrightarrow>
      length ds \<le> 10 \<and> map position ds = map int [1..<Suc (length ds)] \<and>
      sorted_wrt (<) (map position ds)) \<and>
   (fst (fetch_constructor_standings L G year calls) = Inr ts \<longrightarrow>
      length ts \<le> 10 \<and> map team_position ts = map int [1..<Suc (length ts)] \<and>
      sorted_wrt (<) (map team_position ts)) \<and>
   (fst (calculate_standings_from_results L G year calls) = Inr (cds, cts) \<longrightarrow>
      length cds \<le> 10 \<and> map position cds = map int [1..<Suc (length cds)] \<and>
      sorted_wrt (\<lambda>a b. b \<le> a) (map points cds) \<and>
      length cts \<le> 10 \<and> map team_position cts = map int [1..<Suc (length cts)] \<and>
      sorted_wrt (\<lambda>a b. b \<le> a) (map team_points cts)) \<and>
   map position (fst get_fallback_standings) = map int [1..<Suc 3] \<and>
   map team_position (snd get_fallback_standings) = map int [1..<Suc 3] \<and>
   sorted_wrt (\<lambda>a b. b \<le> a) (map points (fst get_fallback_standings)) \<and>
   sorted_wrt (\<lambda>a b. b \<le> a) (map team_points (snd get_fallback_standings))"
proof (intro conjI impI)
  assume a: "fst (fetch_driver_standings L G year calls) = Inr ds"
  from fetch_driver_standings_ranked [OF a]
  show "length ds \<le> 10" and p: "map position ds = map int [1..<Suc (length ds)]"
    by simp_all
  show "sorted_wrt (<) (map position ds)"
    unfolding p by (rule ranks_increasing)
next
  assume a: "fst (fetch_constructor_standings L G year calls) = Inr ts"
  from fetch_constructor_standings_ranked [OF a]
  show "length ts \<le> 10" and p: "map team_position ts = map int [1..<Suc (length ts)]"
    by simp_all
  show "sorted_wrt (<) (map team_position ts)"
    unfolding p by (rule ranks_increasing)
next
  assume a: "fst (calculate_standings_from_results L G year calls) = Inr (cds, cts)"
  from calculate_standings_ranked [OF a]
  show "length cds \<le> 10" "map position cds = map int [1..<Suc (length cds)]"
    "sorted_wrt (\<lambda>a b. b \<le> a) (map points cds)"
    "length cts \<le> 10" "map team_position cts = map int [1..<Suc (length cts)]"
    "sorted_wrt (\<lambda>a b. b \<le> a) (map team_points cts)"
    by simp_all
next
  from fallback_standings_ranked
  show "map position (fst get_fallback_standings) = map int [1..<Suc 3]"
    "map team_position (snd get_fallback_standings) = map int [1..<Suc 3]"
    "sorted_wrt (\<lambda>a b. b \<le> a) (map points (fst get_fallback_standings))"
    "sorted_wrt (\<lambda>a b. b \<le> a) (map team_points (snd get_fallback_standings))"
    by simp_all
qed

theorem standings_ranked_witness:
  "fst (fetch_driver_standings example_lib unsorted_gateway 2025 []) =
     Inr [\<lparr> position = 1, driver_name = ''A'', abbrev = ''UNK'', team = ''Unknown'',
             points = 1 \<rparr>,
          \<lparr> position = 2, driver_name = ''B'', abbrev = ''UNK'', team = ''Unknown'',
             points = 5 \<rparr>] \<and>
   sorted_wrt (<)
     (map position
        [\<lparr> position = 1, driver_name = ''A'', abbrev = ''UNK'', team = ''Unknown'',
            points = 1 \<rparr>,
         \<lparr> position = 2, driver_name = ''B'', abbrev = ''UNK'', team = ''Unknown'',
            points = 5 \<rparr>]) \<and>
   fst (calculate_standings_from_results example_lib unavailable 2025 [])
     = Inr get_fallback_standings \<and>
   sorted_wrt (\<lambda>a b. b \<le> a) (map points (fst get_fallback_standings))"
  using unsorted_drivers unavailable_standings_value
    standings_ranked [of example_lib unsorted_gateway 2025 "[]"
      "[\<lparr> position = 1, driver_name = ''A'', abbrev = ''UNK'', team = ''Unknown'',
          points = 1 \<rparr>,
        \<lparr> position = 2, driver_name = ''B'', abbrev = ''UNK'', team = ''Unknown'',
          points = 5 \<rparr>]" "[]" "[]" "[]"]
  by simp

section \<open>Verification: final positions of a session\<close>

text \<open>The comparison of two timestamps, as the loop makes it, is asymmetric and transitive
  on the values it accepts: two strings, or two numbers.\<close>

lemma py_gt_num:
  "num_of a = Some p \<Longrightarrow> num_of b = Some q \<Longrightarrow> py_gt a b = Inr (q < p)"
  by (cases a; cases b) auto

lemma py_gt_cases:
  assumes "py_gt a b = Inr x"
  shows "(\<exists>s t. a = JStr s \<and> b = JStr t \<and> x = (t < s)) \<or>
         (\<exists>p q. num_of a = Some p \<and> num_of b = Some q \<and> x = (q < p))"
  using assms by (cases a; cases b) (auto split: if_splits)

lemma py_gt_asym: "py_gt a b = Inr True \<Longrightarrow> py_gt b a = Inr False"
  using py_gt_cases [of a b True] by (auto simp: py_gt_num)

lemma py_gt_trans:
  assumes "py_gt c b = Inr False" "py_gt a b = Inr True"
  shows "py_gt c a = Inr False"
proof -
  from py_gt_cases [OF assms(2)] show ?thesis
  proof (elim disjE exE conjE)
    fix s t assume a: "a = JStr s" "b = JStr t" "True = (t < s)"
    with py_gt_cases [OF assms(1)] obtain u where "c = JStr u" "\<not> t < u" by auto
    with a show ?thesis by auto
  next
    fix p q assume a: "num_of a = Some p" "num_of b = Some q" "True = (q < p)"
    with py_gt_cases [OF assms(1)] obtain r where "num_of c = Some r" "\<not> q < r" by auto
    with a show ?thesis by (auto simp: py_gt_num)
  qed
qed

lemma not_later_asym:
  assumes "subscript pos ''date'' = Inr d" "subscript cur ''date'' = Inr d0"
    "py_gt d d0 = Inr True"
  shows "not_later cur pos"
  using assms py_gt_asym [OF assms(3)] by (simp add: not_later_def)

lemma not_later_step:
  assumes "subscript pos ''date'' = Inr d" "subscript cur ''date'' = Inr d0"
    "py_gt d d0 = Inr True" "not_later r' cur"
  shows "not_later r' pos"
proof -
  from assms(4) assms(2) obtain d' where d': "subscript r' ''date'' = Inr d'"
    and "py_gt d' d0 = Inr False"
    by (auto simp: not_later_def then_do_Inr_iff split: sum.splits)
  with py_gt_trans [OF _ assms(3)] have "py_gt d' d = Inr False" by blast
  with d' assms(1) show ?thesis by (simp add: not_later_def)
qed

lemma not_later_kept:
  assumes "subscript pos ''date'' = Inr d" "subscript cur ''date'' = Inr d0"
    "py_gt d d0 = Inr False"
  shows "not_later pos cur"
  using assms by (simp add: not_later_def)



lemma record_position_step:
  assumes inv: "latest_per_car fp S" and rp: "record_position fp pos = Inr fp'"
  shows "latest_per_car fp' (insert pos S)"
proof -
  from rp obtain dn key where dn: "subscript pos ''driver_number'' = Inr dn"
    and key: "hashable dn = Inr key"
    by (auto simp: record_position_def then_do_Inr_iff)
  define k where "k = norm key"
  have car: "car_of pos = Some k"
    using dn key by (simp add: car_of_def k_def)
  from inv have dist: "distinct (map fst fp)"
    and dom: "dom (map_of fp) = {k. \<exists>pos \<in> S. car_of pos = Some k}"
    and ent: "\<And>k key r. map_of fp k = Some (key, r) \<Longrightarrow>
        r \<in> S \<and> car_of r = Some k \<and>
        (\<forall>r' \<in> S. car_of r' = Some k \<longrightarrow> r' = r \<or> not_later r' r)"
    by (auto simp: latest_per_car_def)
  show ?thesis
  proof (cases "map_of fp k")
    case None
    with rp dn key have fp': "fp' = AList.update k (key, pos) fp"
      by (simp add: record_position_def k_def)
    have m: "map_of fp' = (map_of fp)(k \<mapsto> (key, pos))"
      by (simp add: fp' update_conv')
    have fresh: "car_of r' \<noteq> Some k" if "r' \<in> S" for r'
    proof
      assume "car_of r' = Some k"
      with that have "k \<in> {k. \<exists>pos \<in> S. car_of pos = Some k}" by blast
      with dom have "k \<in> dom (map_of fp)" by simp
      with None show False by auto
    qed
    have "distinct (map fst fp')" using dist by (simp add: fp' distinct_update)
    moreover have "dom (map_of fp') = {k. \<exists>p \<in> insert pos S. car_of p = Some k}"
      using dom car by (auto simp: m)
    moreover have "\<forall>k' key' r. map_of fp' k' = Some (key', r) \<longrightarrow>
        r \<in> insert pos S \<and> car_of r = Some k' \<and>
        (\<forall>r' \<in> insert pos S. car_of r' = Some k' \<longrightarrow> r' = r \<or> not_later r' r)"
      using ent car fresh by (auto simp: m split: if_splits)
    ultimately show ?thesis by (simp add: latest_per_car_def)
  next
    case (Some entry)
    obtain key0 cur where entry: "entry = (key0, cur)" by (cases entry)
    with Some rp dn key obtain d d0 later where d: "subscript pos ''date'' = Inr d"
      and d0: "subscript cur ''date'' = Inr d0" and gt: "py_gt d d0 = Inr later"
      and fp': "fp' = (if later then AList.update k (key0, pos) fp else fp)"
      by (auto simp: record_position_def k_def then_do_Inr_iff)
    from ent [of k key0 cur] Some entry
    have cur: "cur \<in> S" "car_of cur = Some k"
      and curmax: "\<And>r'. r' \<in> S \<Longrightarrow> car_of r' = Some k \<Longrightarrow> r' = cur \<or> not_later r' cur"
      by auto
    show ?thesis
    proof (cases later)
      case True
      with gt have gt': "py_gt d d0 = Inr True" by simp
      from True fp' have m: "map_of fp' = (map_of fp)(k \<mapsto> (key0, pos))"
        by (simp add: update_conv')
      have pmax: "\<And>r'. r' \<in> S \<Longrightarrow> car_of r' = Some k \<Longrightarrow> not_later r' pos"
        using curmax not_later_asym [OF d d0 gt'] not_later_step [OF d d0 gt'] by blast
      have "distinct (map fst fp')" using dist True fp' by (simp add: distinct_update)
      moreover have "dom (map_of fp') = {k. \<exists>p \<in> insert pos S. car_of p = Some k}"
        using dom car Some by (auto simp: m)
      moreover have "\<forall>k' key' r. map_of fp' k' = Some (key', r) \<longrightarrow>
          r \<in> insert pos S \<and> car_of r = Some k' \<and>
          (\<forall>r' \<in> insert pos S. car_of r' = Some k' \<longrightarrow> r' = r \<or> not_later r' r)"
        using ent car pmax by (auto simp: m split: if_splits)
      ultimately show ?thesis by (simp add: latest_per_car_def)
    next
      case False
      with gt have gt': "py_gt d d0 = Inr False" by simp
      from False fp' have same: "fp' = fp" by simp
      have pk: "not_later pos cur" by (rule not_later_kept [OF d d0 gt'])
      have "dom (map_of fp) = {k. \<exists>p \<in> insert pos S. car_of p = Some k}"
        using dom car Some by auto
      moreover have "\<forall>k' key' r. map_of fp k' = Some (key', r) \<longrightarrow>
          r \<in> insert pos S \<and> car_of r = Some k' \<and>
          (\<forall>r' \<in> insert pos S. car_of r' = Some k' \<longrightarrow> r' = r \<or> not_later r' r)"
      proof (intro allI impI)
        fix k' key' r assume a: "map_of fp k' = Some (key', r)"
        show "r \<in> insert pos S \<and> car_of r = Some k' \<and>
          (\<forall>r' \<in> insert pos S. car_of r' = Some k' \<longrightarrow> r' = r \<or> not_later r' r)"
        proof (cases "k' = k")
          case True
          with a Some entry have "r = cur" by simp
          with ent [OF a] pk True show ?thesis by auto
        next
          case False
          with ent [OF a] car show ?thesis by auto
        qed
      qed
      ultimately show ?thesis using dist by (simp add: latest_per_car_def same)
    qed
  qed
qed

lemma final_positions_from_latest:
  "final_positions_from fp ps = Inr fp' \<Longrightarrow> latest_per_car fp S \<Longrightarrow>
     latest_per_car fp' (S \<union> set ps)"
proof (induction ps arbitrary: fp S)
  case Nil
  then show ?case by simp
next
  case (Cons pos rest)
  from Cons.prems(1) obtain fp1 where 1: "record_position fp pos = Inr fp1"
    and 2: "final_positions_from fp1 rest = Inr fp'"
    by (auto simp: then_do_Inr_iff)
  from Cons.IH [OF 2 record_position_step [OF Cons.prems(2) 1]]
  show ?case by simp
qed

lemma first_race_final:
  "final_positions_of first_race_positions =
     Inr [(KNum 44, HInt 44, pos_ham_final), (KNum 1, HInt 1, pos_ver_final),
          (KNum 99, HInt 99, pos_new_final)]"
  by (simp add: final_positions_of_def first_race_positions_def record_position_def
      pos_ham_early_def pos_ver_final_def pos_ham_final_def pos_new_final_def)



section \<open>Verification: points\<close>

text \<open>The table, and what one award adds to a driver's total.\<close>

lemma points_for_table:
  "points_for (JInt n) =
     Inr (if n = 1 then 25 else if n = 2 then 18 else if n = 3 then 15 else if n = 4 then 12
          else if n = 5 then 10 else if n = 6 then 8 else if n = 7 then 6 else if n = 8 then 4
          else if n = 9 then 2 else if n = 10 then 1 else 0)"
  by (simp add: points_for_def int_dict_get_def POINTS_SYSTEM_def)

lemma points_for_outside:
  "hashable v = Inr key \<Longrightarrow> int_dict_get POINTS_SYSTEM key = None \<Longrightarrow> points_for v = Inr 0"
  by (simp add: points_for_def)

lemma total_of_update:
  "total_of (AList.update k (p, i) dp) dk = (if dk = k then p else total_of dp dk)"
  by (simp add: total_of_def update_conv')

lemma award_cases:
  assumes "award L (dn, pos) (dp, tp) = Inr (dp', tp')"
  obtains position pts where "subscript pos ''position'' = Inr position"
    and "points_for position = Inr pts"
    and "total_of dp' dk = total_of dp dk + (if driver_key_of L dn = dk then pts else 0)"
proof -
  from assms obtain position pts where p: "subscript pos ''position'' = Inr position"
    and q: "points_for position = Inr pts"
    and dp0: "dp' = (case map_of dp (norm dn, info_name (lookup_driver_info L dn)) of
                      None \<Rightarrow> AList.update (norm dn, info_name (lookup_driver_info L dn))
                                (0 + pts, lookup_driver_info L dn) dp
                    | Some (p, i) \<Rightarrow> AList.update (norm dn, info_name (lookup_driver_info L dn))
                                (p + pts, i) dp)"
    by (auto simp: award_def then_do_Inr_iff Let_def)
  have dp': "dp' = (case map_of dp (driver_key_of L dn) of
                      None \<Rightarrow> AList.update (driver_key_of L dn) (0 + pts, lookup_driver_info L dn) dp
                    | Some (p, i) \<Rightarrow> AList.update (driver_key_of L dn) (p + pts, i) dp)"
    unfolding driver_key_of_def by (rule dp0)
  have "total_of dp' dk = total_of dp dk + (if driver_key_of L dn = dk then pts else 0)"
    unfolding dp'
    by (cases "map_of dp (driver_key_of L dn)")
       (auto simp: total_of_update, auto simp: total_of_def)
  with p q that show thesis by blast
qed

lemma award_total:
  assumes "award L entry acc = Inr acc'"
  shows "total_of (fst acc') dk = total_of (fst acc) dk + entry_points L dk entry"
    and "\<exists>position. subscript (snd entry) ''position'' = Inr position \<and>
           points_for position = Inr (position_points (snd entry))"
proof -
  obtain dn pos dp tp dp' tp' where e: "entry = (dn, pos)" "acc = (dp, tp)" "acc' = (dp', tp')"
    by (cases entry; cases acc; cases acc') auto
  from assms [unfolded e] show "total_of (fst acc') dk = total_of (fst acc) dk + entry_points L dk entry"
    by (rule award_cases [where dk = dk])
       (auto simp: e entry_points_def position_points_def)
  from assms [unfolded e] show "\<exists>position. subscript (snd entry) ''position'' = Inr position \<and>
           points_for position = Inr (position_points (snd entry))"
    by (rule award_cases [where dk = dk])
       (auto simp: e position_points_def)
qed

lemma award_all_total:
  "award_all L entries acc = Inr acc' \<Longrightarrow>
     total_of (fst acc') dk = total_of (fst acc) dk + sum_list (map (entry_points L dk) entries)"
proof (induction entries arbitrary: acc)
  case Nil
  then show ?case by simp
next
  case (Cons entry rest)
  from Cons.prems obtain acc1 where 1: "award L entry acc = Inr acc1"
    and 2: "award_all L rest acc1 = Inr acc'"
    by (auto simp: then_do_Inr_iff)
  from Cons.IH [OF 2] award_total(1) [OF 1, of dk] show ?case by simp
qed

lemma award_all_positions:
  "award_all L entries acc = Inr acc' \<Longrightarrow> entry \<in> set entries \<Longrightarrow>
     \<exists>position. subscript (snd entry) ''position'' = Inr position \<and>
        points_for position = Inr (position_points (snd entry))"
proof (induction entries arbitrary: acc)
  case Nil
  then show ?case by simp
next
  case (Cons e rest)
  from Cons.prems(1) obtain acc1 where 1: "award L e acc = Inr acc1"
    and 2: "award_all L rest acc1 = Inr acc'"
    by (auto simp: then_do_Inr_iff)
  from Cons.prems(2) consider "entry = e" | "entry \<in> set rest" by auto
  then show ?case
  proof cases
    case 1
    with award_total(2) [OF \<open>award L e acc = Inr acc1\<close>] show ?thesis by simp
  next
    case 2
    from Cons.IH [OF \<open>award_all L rest acc1 = Inr acc'\<close> 2] show ?thesis .
  qed
qed

lemma sessions_loop_cases:
  assumes "sessions_loop L G (session # rest) acc calls = (Inr acc', calls')"
  obtains (skipped) session_key positions calls1 where
      "subscript session ''session_key'' = Inr session_key"
      "fetch_from_openf1 G (Positions session_key) calls = (positions, calls1)"
      "\<not> nonempty positions"
      "sessions_loop L G rest acc calls1 = (Inr acc', calls')"
      "processed_sessions G (session # rest) calls = processed_sessions G rest calls1"
  | (processed) session_key positions calls1 fp acc1 where
      "subscript session ''session_key'' = Inr session_key"
      "fetch_from_openf1 G (Positions session_key) calls = (positions, calls1)"
      "nonempty positions"
      "final_positions_of (the positions) = Inr fp"
      "award_all L (map snd fp) acc = Inr acc1"
      "sessions_loop L G rest acc1 calls1 = (Inr acc', calls')"
      "processed_sessions G (session # rest) calls
         = the positions # processed_sessions G rest calls1"
proof -
  from assms obtain session_key where k: "subscript session ''session_key'' = Inr session_key"
    by (cases "subscript session ''session_key''") auto
  obtain positions calls1 where f: "fetch_from_openf1 G (Positions session_key) calls = (positions, calls1)"
    by (cases "fetch_from_openf1 G (Positions session_key) calls")
  show thesis
  proof (cases "nonempty positions")
    case False
    with assms k f show ?thesis by (intro skipped [OF k f]) auto
  next
    case True
    with assms k f obtain acc1 where
      a: "then_do (final_positions_of (the positions)) (\<lambda>fp. award_all L (map snd fp) acc) = Inr acc1"
      and r: "sessions_loop L G rest acc1 calls1 = (Inr acc', calls')"
      by (cases "then_do (final_positions_of (the positions)) (\<lambda>fp. award_all L (map snd fp) acc)") auto
    from a obtain fp where "final_positions_of (the positions) = Inr fp"
      "award_all L (map snd fp) acc = Inr acc1"
      by (auto simp: then_do_Inr_iff)
    with True k f r show ?thesis by (intro processed [OF k f]) auto
  qed
qed

lemma sessions_loop_total:
  "sessions_loop L G sessions acc calls = (Inr acc', calls') \<Longrightarrow>
     total_of (fst acc') dk =
       total_of (fst acc) dk
         + sum_list (map (session_points L dk) (processed_sessions G sessions calls))"
proof (induction sessions arbitrary: acc calls)
  case Nil
  then show ?case by simp
next
  case (Cons session rest)
  from Cons.prems show ?case
  proof (cases rule: sessions_loop_cases)
    case (skipped session_key positions calls1)
    from Cons.IH [OF skipped(4)] show ?thesis unfolding skipped(5) .
  next
    case (processed session_key positions calls1 fp acc1)
    from award_all_total [OF processed(5), of dk] processed(4)
    have "total_of (fst acc1) dk = total_of (fst acc) dk + session_points L dk (the positions)"
      by (simp add: session_points_def)
    with Cons.IH [OF processed(6)] show ?thesis unfolding processed(7) by simp
  qed
qed

lemma sessions_loop_positions:
  "sessions_loop L G sessions acc calls = (Inr acc', calls') \<Longrightarrow>
     positions \<in> set (processed_sessions G sessions calls) \<Longrightarrow>
     \<exists>fp. final_positions_of positions = Inr fp \<and>
       (\<forall>entry \<in> set fp. \<exists>position. subscript (snd (snd entry)) ''position'' = Inr position \<and>
           points_for position = Inr (position_points (snd (snd entry))))"
proof (induction sessions arbitrary: acc calls)
  case Nil
  then show ?case by simp
next
  case (Cons session rest)
  from Cons.prems(1) show ?case
  proof (cases rule: sessions_loop_cases)
    case (skipped session_key positions1 calls1)
    from Cons.IH [OF skipped(4) Cons.prems(2) [unfolded skipped(5)]] show ?thesis .
  next
    case (processed session_key positions1 calls1 fp acc1)
    from Cons.prems(2) [unfolded processed(7)]
    consider "positions = the positions1" | "positions \<in> set (processed_sessions G rest calls1)"
      by auto
    then show ?thesis
    proof cases
      case 1
      with processed(4) award_all_positions [OF processed(5)] show ?thesis by auto
    next
      case 2
      from Cons.IH [OF processed(6) 2] show ?thesis .
    qed
  qed
qed

text \<open>One entry per car: the points a session gives a driver are those of the driver's one
  retained record.\<close>

lemma record_position_keyed:
  assumes rp: "record_position fp pos = Inr fp'"
    and keyed: "\<forall>k key r. map_of fp k = Some (key, r) \<longrightarrow> k = norm key"
  shows "\<forall>k key r. map_of fp' k = Some (key, r) \<longrightarrow> k = norm key"
proof -
  from rp obtain dn key where dn: "subscript pos ''driver_number'' = Inr dn"
    and key: "hashable dn = Inr key"
    by (auto simp: record_position_def then_do_Inr_iff)
  show ?thesis
  proof (cases "map_of fp (norm key)")
    case None
    with rp dn key have "fp' = AList.update (norm key) (key, pos) fp"
      by (simp add: record_position_def)
    with keyed show ?thesis by (auto simp: update_conv' split: if_splits)
  next
    case (Some entry)
    obtain key0 cur where entry: "entry = (key0, cur)" by (cases entry)
    with Some keyed have k0: "norm key = norm key0" by blast
    from Some entry rp dn key obtain later where
      "fp' = (if later then AList.update (norm key) (key0, pos) fp else fp)"
      by (auto simp: record_position_def then_do_Inr_iff)
    with keyed k0 show ?thesis by (cases later) (auto simp: update_conv' split: if_splits)
  qed
qed

lemma final_positions_from_keyed:
  "final_positions_from fp ps = Inr fp' \<Longrightarrow>
     \<forall>k key r. map_of fp k = Some (key, r) \<longrightarrow> k = norm key \<Longrightarrow>
     \<forall>k key r. map_of fp' k = Some (key, r) \<longrightarrow> k = norm key"
proof (induction ps arbitrary: fp)
  case Nil
  then show ?case by simp
next
  case (Cons pos rest)
  from Cons.prems(1) obtain fp1 where 1: "record_position fp pos = Inr fp1"
    and 2: "final_positions_from fp1 rest = Inr fp'"
    by (auto simp: then_do_Inr_iff)
  from Cons.IH [OF 2 record_position_keyed [OF 1 Cons.prems(2)]] show ?case .
qed

lemma final_positions_entries:
  assumes "final_positions_of positions = Inr fp"
  shows "distinct (map fst fp)" and "(k, key, r) \<in> set fp \<Longrightarrow> k = norm key"
proof -
  have "latest_per_car [] {}" by (simp add: latest_per_car_def)
  from final_positions_from_latest [OF assms [unfolded final_positions_of_def] this]
  show dist: "distinct (map fst fp)" by (simp add: latest_per_car_def)
  assume "(k, key, r) \<in> set fp"
  with dist have "map_of fp k = Some (key, r)" by simp
  with final_positions_from_keyed [OF assms [unfolded final_positions_of_def]]
  show "k = norm key" by simp
qed

lemma sum_list_zero:
  "\<forall>x \<in> set xs. f (snd x) = (0::int) \<Longrightarrow> sum_list (map f (map snd xs)) = 0"
  by (induction xs) auto

lemma sum_list_single:
  "distinct (map fst xs) \<Longrightarrow> (k, v) \<in> set xs \<Longrightarrow>
     (\<And>k' v'. (k', v') \<in> set xs \<Longrightarrow> k' \<noteq> k \<Longrightarrow> f v' = (0::int)) \<Longrightarrow>
     sum_list (map f (map snd xs)) = f v"
proof (induction xs)
  case Nil
  then show ?case by simp
next
  case (Cons x xs)
  obtain k0 v0 where x: "x = (k0, v0)" by (cases x)
  show ?case
  proof (cases "k0 = k")
    case True
    with Cons.prems(1,2) x have v: "v0 = v" by (auto simp: image_iff)
    from True Cons.prems(1) x have "\<And>k' v'. (k', v') \<in> set xs \<Longrightarrow> k' \<noteq> k"
      by (auto simp: image_iff)
    with Cons.prems(3) have "\<And>k' v'. (k', v') \<in> set xs \<Longrightarrow> f v' = 0"
      by (metis list.set_intros(2))
    then have "\<forall>x \<in> set xs. f (snd x) = 0" by auto
    then have "sum_list (map f (map snd xs)) = 0"
      by (rule sum_list_zero)
    with v x show ?thesis by simp
  next
    case False
    with Cons.prems(2) x have mem: "(k, v) \<in> set xs" by auto
    from Cons.prems(3) [of k0 v0] False x have "f v0 = 0" by simp
    moreover have "sum_list (map f (map snd xs)) = f v"
    proof (rule Cons.IH [OF _ mem])
      from Cons.prems(1) show "distinct (map fst xs)" by simp
    next
      fix k' v' assume "(k', v') \<in> set xs" "k' \<noteq> k"
      with Cons.prems(3) [of k' v'] show "f v' = 0" by simp
    qed
    ultimately show ?thesis using x by simp
  qed
qed

lemma session_points_entry:
  assumes fp: "final_positions_of positions = Inr fp" and mem: "(k, dn, pos) \<in> set fp"
  shows "session_points L (driver_key_of L dn) positions = position_points pos"
proof -
  note e = final_positions_entries [OF fp]
  have "sum_list (map (entry_points L (driver_key_of L dn)) (map snd fp))
          = entry_points L (driver_key_of L dn) (dn, pos)"
  proof (rule sum_list_single [OF e(1) mem])
    fix k' v' assume m: "(k', v') \<in> set fp" and ne: "k' \<noteq> k"
    obtain dn' pos' where v': "v' = (dn', pos')" by (cases v')
    from e(2) [of k' dn' pos'] m v' have "k' = norm dn'" by simp
    moreover from e(2) [OF mem] have "k = norm dn" .
    ultimately show "entry_points L (driver_key_of L dn) v' = 0"
      using ne v' by (auto simp: entry_points_def driver_key_of_def)
  qed
  with fp show ?thesis by (simp add: session_points_def entry_points_def)
qed

text \<open>The two races of the example.\<close>

lemma second_race_final:
  "final_positions_of second_race_positions =
     Inr [(KNum 1, HInt 1, pos_ver_second), (KNum 44, HInt 44, pos_ham_second)]"
  by (simp add: final_positions_of_def second_race_positions_def record_position_def
      pos_ver_second_def pos_ham_second_def)

lemma info_ham:
  "lookup_driver_info L (HInt 44)
     = \<lparr>info_name = ''Lewis Hamilton'', info_abbr = ''HAM'', info_team = ''Ferrari''\<rparr>"
  by (simp add: lookup_driver_info_def int_dict_get_def DRIVER_INFO_def)

lemma info_ver:
  "lookup_driver_info L (HInt 1)
     = \<lparr>info_name = ''Max Verstappen'', info_abbr = ''VER'', info_team = ''Red Bull Racing''\<rparr>"
  by (simp add: lookup_driver_info_def int_dict_get_def DRIVER_INFO_def)

lemma info_new:
  "lookup_driver_info L (HInt 99)
     = \<lparr>info_name = ''Driver 99'', info_abbr = ''D99'', info_team = ''Unknown''\<rparr>"
  by (simp add: lookup_driver_info_def int_dict_get_def DRIVER_INFO_def str_int_def
      str_nat_2 digit_char_def)

lemma results_processed:
  "processed_sessions results_gateway two_sessions []
     = [first_race_positions, second_race_positions]"
  by (simp add: two_sessions_def results_gateway_def fetch_from_openf1_def
      first_race_positions_def second_race_positions_def)

lemma first_race_awards:
  "award_all example_lib
     [(HInt 44, pos_ham_final), (HInt 1, pos_ver_final), (HInt 99, pos_new_final)] ([], []) =
   Inr ([((KNum 44, ''Lewis Hamilton''), 25,
           \<lparr>info_name = ''Lewis Hamilton'', info_abbr = ''HAM'', info_team = ''Ferrari''\<rparr>),
         ((KNum 1, ''Max Verstappen''), 18,
           \<lparr>info_name = ''Max Verstappen'', info_abbr = ''VER'',
             info_team = ''Red Bull Racing''\<rparr>),
         ((KNum 99, ''Driver 99''), 0,
           \<lparr>info_name = ''Driver 99'', info_abbr = ''D99'', info_team = ''Unknown''\<rparr>)],
        [(''Ferrari'', 25), (''Red Bull Racing'', 18), (''Unknown'', 0)])"
  by (simp add: award_def Let_def info_ham info_ver info_new points_for_table
      pos_ham_final_def pos_ver_final_def pos_new_final_def)

lemma second_race_awards:
  "award_all example_lib [(HInt 1, pos_ver_second), (HInt 44, pos_ham_second)]
     ([((KNum 44, ''Lewis Hamilton''), 25,
           \<lparr>info_name = ''Lewis Hamilton'', info_abbr = ''HAM'', info_team = ''Ferrari''\<rparr>),
         ((KNum 1, ''Max Verstappen''), 18,
           \<lparr>info_name = ''Max Verstappen'', info_abbr = ''VER'',
             info_team = ''Red Bull Racing''\<rparr>),
         ((KNum 99, ''Driver 99''), 0,
           \<lparr>info_name = ''Driver 99'', info_abbr = ''D99'', info_team = ''Unknown''\<rparr>)],
        [(''Ferrari'', 25), (''Red Bull Racing'', 18), (''Unknown'', 0)]) =
   Inr ([((KNum 44, ''Lewis Hamilton''), 40,
           \<lparr>info_name = ''Lewis Hamilton'', info_abbr = ''HAM'', info_team = ''Ferrari''\<rparr>),
         ((KNum 1, ''Max Verstappen''), 43,
           \<lparr>info_name = ''Max Verstappen'', info_abbr = ''VER'',
             info_team = ''Red Bull Racing''\<rparr>),
         ((KNum 99, ''Driver 99''), 0,
           \<lparr>info_name = ''Driver 99'', info_abbr = ''D99'', info_team = ''Unknown''\<rparr>)],
        [(''Ferrari'', 40), (''Red Bull Racing'', 43), (''Unknown'', 0)])"
  by (simp add: award_def Let_def info_ham info_ver points_for_table
      pos_ver_second_def pos_ham_second_def)

lemma results_loop:
  "sessions_loop example_lib results_gateway two_sessions ([], []) [] =
     (Inr ([((KNum 44, ''Lewis Hamilton''), 40,
              \<lparr>info_name = ''Lewis Hamilton'', info_abbr = ''HAM'', info_team = ''Ferrari''\<rparr>),
            ((KNum 1, ''Max Verstappen''), 43,
              \<lparr>info_name = ''Max Verstappen'', info_abbr = ''VER'',
                info_team = ''Red Bull Racing''\<rparr>),
            ((KNum 99, ''Driver 99''), 0,
              \<lparr>info_name = ''Driver 99'', info_abbr = ''D99'', info_team = ''Unknown''\<rparr>)],
           [(''Ferrari'', 40), (''Red Bull Racing'', 43), (''Unknown'', 0)]),
      [OpenF1 (Positions (JInt 9662)), OpenF1 (Positions (JInt 9655))])"
proof -
  have a: "openf1 results_gateway calls (Positions (JInt 9662)) = Some first_race_positions"
    "openf1 results_gateway calls (Positions (JInt 9655)) = Some second_race_positions"
    for calls
    by (simp_all add: results_gateway_def)
  have ne: "first_race_positions \<noteq> []" "second_race_positions \<noteq> []"
    by (simp_all add: first_race_positions_def second_race_positions_def)
  show ?thesis
    unfolding two_sessions_def
    using ne
    by (simp add: fetch_from_openf1_def a first_race_final second_race_final
        first_race_awards second_race_awards del: award_all.simps)
qed

lemma ham_points:
  "session_points example_lib (KNum 44, ''Lewis Hamilton'') first_race_positions = 25"
  "session_points example_lib (KNum 44, ''Lewis Hamilton'') second_race_positions = 15"
  by (simp_all add: session_points_def first_race_final second_race_final entry_points_def
      driver_key_of_def info_ham info_ver info_new position_points_def points_for_table
      pos_ham_final_def pos_ver_final_def pos_new_final_def pos_ver_second_def pos_ham_second_def)

text \<open>
  Claim C4. The table gives 25, 18, 15, 12, 10, 8, 6, 4, 2 and 1 points for the positions 1
  to 10 and 0 for any other position, be it 11 or greater or a value that is no key of the
  table. When the loop over the sessions ends without raising, every retained record of every
  processed session has a position, the table maps it to the points the session gives that
  driver, and the total stored for a driver is the sum of these per-session points over the
  processed sessions (the sessions for which the provider returned a non-empty list of
  position records).
\<close>

theorem points_accumulate:
  assumes "sessions_loop L G sessions ([], []) calls = (Inr (dpoints, tpoints), calls')"
  shows "map (\<lambda>n. points_for (JInt n)) [1, 2, 3, 4, 5, 6, 7, 8, 9, 10]
           = map Inr [25, 18, 15, 12, 10, 8, 6, 4, 2, 1] \<and>
         (\<forall>n. n < 1 \<or> 10 < n \<longrightarrow> points_for (JInt n) = Inr 0) \<and>
         (\<forall>v key. hashable v = Inr key \<longrightarrow> int_dict_get POINTS_SYSTEM key = None
            \<longrightarrow> points_for v = Inr 0) \<and>
         (\<forall>positions \<in> set (processed_sessions G sessions calls).
            \<exists>fp. final_positions_of positions = Inr fp \<and>
              (\<forall>(k, driver_number, pos_data) \<in> set fp.
                 \<exists>position. subscript pos_data ''position'' = Inr position \<and>
                   points_for position
                     = Inr (session_points L (driver_key_of L driver_number) positions))) \<and>
         total_of dpoints driver_key
           = sum_list (map (session_points L driver_key) (processed_sessions G sessions calls))"
proof -
  have 1: "map (\<lambda>n. points_for (JInt n)) [1, 2, 3, 4, 5, 6, 7, 8, 9, 10]
           = map Inr [25, 18, 15, 12, 10, 8, 6, 4, 2, 1]"
    by (simp add: points_for_table)
  have 2: "\<forall>n. n < 1 \<or> 10 < n \<longrightarrow> points_for (JInt n) = Inr 0"
    by (auto simp: points_for_table)
  have 3: "\<forall>v key. hashable v = Inr key \<longrightarrow> int_dict_get POINTS_SYSTEM key = None
            \<longrightarrow> points_for v = Inr 0"
    using points_for_outside by blast
  have 4: "\<forall>positions \<in> set (processed_sessions G sessions calls).
            \<exists>fp. final_positions_of positions = Inr fp \<and>
              (\<forall>(k, driver_number, pos_data) \<in> set fp.
                 \<exists>position. subscript pos_data ''position'' = Inr position \<and>
                   points_for position
                     = Inr (session_points L (driver_key_of L driver_number) positions))"
  proof
    fix positions assume "positions \<in> set (processed_sessions G sessions calls)"
    from sessions_loop_positions [OF assms this] obtain fp
      where fp: "final_positions_of positions = Inr fp"
        and pts: "\<And>entry. entry \<in> set fp \<Longrightarrow>
               \<exists>position. subscript (snd (snd entry)) ''position'' = Inr position \<and>
                 points_for position = Inr (position_points (snd (snd entry)))"
      by blast
    have "\<forall>(k, driver_number, pos_data) \<in> set fp.
            \<exists>position. subscript pos_data ''position'' = Inr position \<and>
              points_for position
                = Inr (session_points L (driver_key_of L driver_number) positions)"
    proof (clarify)
      fix k dn pos assume m: "(k, dn, pos) \<in> set fp"
      from pts [OF m] session_points_entry [OF fp m, of L]
      show "\<exists>position. subscript pos ''position'' = Inr position \<and>
              points_for position = Inr (session_points L (driver_key_of L dn) positions)"
        by simp
    qed
    with fp show "\<exists>fp. final_positions_of positions = Inr fp \<and>
              (\<forall>(k, driver_number, pos_data) \<in> set fp.
                 \<exists>position. subscript pos_data ''position'' = Inr position \<and>
                   points_for position
                     = Inr (session_points L (driver_key_of L driver_number) positions))"
      by blast
  qed
  from sessions_loop_total [OF assms, of driver_key]
  have 5: "total_of dpoints driver_key
           = sum_list (map (session_points L driver_key) (processed_sessions G sessions calls))"
    by (simp add: total_of_def)
  from 1 2 3 4 5 show ?thesis by blast
qed

theorem points_accumulate_witness:
  "sessions_loop example_lib results_gateway two_sessions ([], []) [] =
     (Inr ([((KNum 44, ''Lewis Hamilton''), 40,
              \<lparr>info_name = ''Lewis Hamilton'', info_abbr = ''HAM'', info_team = ''Ferrari''\<rparr>),
            ((KNum 1, ''Max Verstappen''), 43,
              \<lparr>info_name = ''Max Verstappen'', info_abbr = ''VER'',
                info_team = ''Red Bull Racing''\<rparr>),
            ((KNum 99, ''Driver 99''), 0,
              \<lparr>info_name = ''Driver 99'', info_abbr = ''D99'', info_team = ''Unknown''\<rparr>)],
           [(''Ferrari'', 40), (''Red Bull Racing'', 43), (''Unknown'', 0)]),
      [OpenF1 (Positions (JInt 9662)), OpenF1 (Positions (JInt 9655))]) \<and>
   processed_sessions results_gateway two_sessions []
     = [first_race_positions, second_race_positions] \<and>
   session_points example_lib (KNum 44, ''Lewis Hamilton'') first_race_positions = 25 \<and>
   session_points example_lib (KNum 44, ''Lewis Hamilton'') second_race_positions = 15 \<and>
   total_of [((KNum 44, ''Lewis Hamilton''), 40,
              \<lparr>info_name = ''Lewis Hamilton'', info_abbr = ''HAM'', info_team = ''Ferrari''\<rparr>),
            ((KNum 1, ''Max Verstappen''), 43,
              \<lparr>info_name = ''Max Verstappen'', info_abbr = ''VER'',
                info_team = ''Red Bull Racing''\<rparr>),
            ((KNum 99, ''Driver 99''), 0,
              \<lparr>info_name = ''Driver 99'', info_abbr = ''D99'', info_team = ''Unknown''\<rparr>)]
      (KNum 44, ''Lewis Hamilton'') = 25 + 15"
proof -
  note points_accumulate [OF results_loop, of "(KNum 44, ''Lewis Hamilton'')",
      THEN conjunct2, THEN conjunct2, THEN conjunct2, THEN conjunct2]
  then have "total_of [((KNum 44, ''Lewis Hamilton''), 40,
              \<lparr>info_name = ''Lewis Hamilton'', info_abbr = ''HAM'', info_team = ''Ferrari''\<rparr>),
            ((KNum 1, ''Max Verstappen''), 43,
              \<lparr>info_name = ''Max Verstappen'', info_abbr = ''VER'',
                info_team = ''Red Bull Racing''\<rparr>),
            ((KNum 99, ''Driver 99''), 0,
              \<lparr>info_name = ''Driver 99'', info_abbr = ''D99'', info_team = ''Unknown''\<rparr>)]
      (KNum 44, ''Lewis Hamilton'') = 25 + 15"
    unfolding results_processed by (simp add: ham_points)
  with results_loop results_processed ham_points show ?thesis by blast
qed

end
